theory Spec2Isabelle
  imports Main "HOL-Library.Word"
begin

unbundle bit_operations_syntax

section \<open>Values exchanged with the route\<close>

text \<open>
  The theory embeds \<^verbatim>\<open>src/app/api/call-events/route.ts\<close>: the two tool handlers, the
  \<^verbatim>\<open>POST\<close> dispatcher, the \<^verbatim>\<open>PUT\<close> result endpoint and the module-level map
  \<^verbatim>\<open>pendingScreenshots\<close>.

  A JavaScript string is a list of code units; the model covers the code units below 256,
  which \<^typ>\<open>char\<close> enumerates.  A field that may be \<^verbatim>\<open>undefined\<close> is an option and
  \<^verbatim>\<open>!x\<close> on a string field is \<open>\<not> truthy x\<close>.  Fields that the interfaces of section 6
  type as strings are strings here; \<^verbatim>\<open>stepCompleted\<close> and \<^verbatim>\<open>success\<close>, which the
  endpoint only tests against \<^verbatim>\<open>undefined\<close> and echoes, are loose values.
\<close>

datatype jsvalue = JNull | JBool bool | JNum int | JStr string

definition truthy :: "string option \<Rightarrow> bool" where
  "truthy x = (case x of None \<Rightarrow> False | Some s \<Rightarrow> s \<noteq> [])"

text \<open>\<^verbatim>\<open>a || b\<close> on two optional strings.\<close>

definition or_else :: "string option \<Rightarrow> string option \<Rightarrow> string option" where
  "or_else a b = (if truthy a then a else b)"

definition startsWith :: "string \<Rightarrow> string \<Rightarrow> bool" where
  "startsWith s p = (take (length p) s = p)"

record screenshotData =
  imageBase64 :: "string option"
  question :: "string option"
  legacyAnswer :: "string option"

datatype settlement = Resolved screenshotData | Rejected string

text \<open>
  A JavaScript number is a double.  The model covers the numbers that are integers of
  magnitude below \<open>2 ^ 53\<close>: JSON carries each of them exactly, \<^verbatim>\<open>Number\<close> leaves it
  as it is, and a template literal prints it in plain decimal.  Fractions and larger
  magnitudes are outside the model.
\<close>

typedef safe_integer = "{i :: int. \<bar>i\<bar> < 2 ^ 53}"
  by (rule exI [of _ 0]) simp

datatype command =
    Capture_screenshot string string
  | Mark_step_complete safe_integer string

record sendData_call =
  host :: string
  room :: string
  data :: command
  destinationIdentities :: "string list"

datatype response_body =
    Error_body string
  | Tool_error string string string
  | Tool_success string string string
  | Event_received string
  | Webhook_failed string
  | Ok_body
  | Step_ack jsvalue "jsvalue option"

record response =
  status :: nat
  json :: response_body

section \<open>The pending-request registry\<close>

text \<open>
  \<^verbatim>\<open>pendingScreenshots\<close> maps a request id to \<^verbatim>\<open>{resolve, reject, timer}\<close>.  The three
  come from one run of the promise executor of lines 87 to 93, so the model names the
  promise and its timer by one number, the count of promises created before it.
  \<open>calls st w\<close> lists, in order, every invocation of a continuation of promise \<open>w\<close> with the
  clock value at which it happened; the awaiting handler resumes with the first.
  \<open>timers st w = Some (deadline, requestId)\<close> is the scheduled callback of lines 88 to 91,
  which closes over \<open>requestId\<close>; a callback runs no earlier than the delay the
  runtime gave its timer.  \<^verbatim>\<open>setTimeout\<close> takes a delay from 1 to 2147483647 ms as it is
  and sets any other to 1 ms.
\<close>

record state =
  pendingScreenshots :: "string \<rightharpoonup> nat"
  timers :: "nat \<rightharpoonup> nat \<times> string"
  calls :: "nat \<Rightarrow> (nat \<times> settlement) list"
  created :: nat
  sent :: "sendData_call list"
  clock :: nat

definition setTimeout_delay :: "nat \<Rightarrow> nat" where
  "setTimeout_delay ms = (if 1 \<le> ms \<and> ms \<le> 2147483647 then ms else 1)"

definition init :: state where
  "init = \<lparr>pendingScreenshots = Map.empty, timers = Map.empty, calls = (\<lambda>w. []),
           created = 0, sent = [], clock = 0\<rparr>"

definition registry_delete :: "string \<Rightarrow> state \<Rightarrow> state" where
  "registry_delete requestId st = st\<lparr>pendingScreenshots := (pendingScreenshots st)(requestId := None)\<rparr>"

definition clearTimeout :: "nat \<Rightarrow> state \<Rightarrow> state" where
  "clearTimeout w st = st\<lparr>timers := (timers st)(w := None)\<rparr>"

definition invoke :: "nat \<Rightarrow> settlement \<Rightarrow> state \<Rightarrow> state" where
  "invoke w x st = st\<lparr>calls := (calls st)(w := calls st w @ [(clock st, x)])\<rparr>"

text \<open>Lines 87 to 93: the executor schedules the timer, then stores the waiter.\<close>

definition handleCaptureScreenshot_wait :: "string \<Rightarrow> nat \<Rightarrow> state \<Rightarrow> nat \<times> state" where
  "handleCaptureScreenshot_wait requestId timeoutMs st =
     (let w = created st;
          st1 = st\<lparr>created := Suc w, timers := (timers st)(w \<mapsto> (clock st + setTimeout_delay timeoutMs, requestId))\<rparr>
      in (w, st1\<lparr>pendingScreenshots := (pendingScreenshots st1)(requestId \<mapsto> w)\<rparr>))"

text \<open>
  Lines 88 to 91: the callback of timer \<open>w\<close>, enabled once its delay has elapsed.  A timer
  that has fired is no longer scheduled; the callback deletes the entry, then rejects.
\<close>

definition timer_fires :: "nat \<Rightarrow> state \<Rightarrow> state option" where
  "timer_fires w st =
     (case timers st w of
        None \<Rightarrow> None
      | Some (deadline, requestId) \<Rightarrow>
          if clock st < deadline then None
          else Some (invoke w (Rejected ''capture_screenshot timed out'')
                      (registry_delete requestId (clearTimeout w st))))"

section \<open>The result submission endpoint\<close>

record put_body =
  b_requestId :: "string option"
  b_imageBase64 :: "string option"
  b_question :: "string option"
  b_answer :: "string option"
  b_stepCompleted :: "jsvalue option"
  b_success :: "jsvalue option"

text \<open>Lines 354 to 358: the object handed to \<^verbatim>\<open>waiter.resolve\<close>.\<close>

definition submission :: "put_body \<Rightarrow> screenshotData" where
  "submission b =
     (if truthy (b_imageBase64 b)
      then \<lparr>imageBase64 = b_imageBase64 b, question = b_question b, legacyAnswer = None\<rparr>
      else \<lparr>imageBase64 = Some [], question = b_question b,
            legacyAnswer = (if truthy (b_answer b) then b_answer b else Some [])\<rparr>)"

text \<open>
  Lines 329 to 366.  \<open>Inl m\<close> is a request whose \<^verbatim>\<open>req.json()\<close> throws an error with
  message \<open>m\<close>; \<open>Inr b\<close> is the destructured body.
\<close>

definition PUT :: "string + put_body \<Rightarrow> state \<Rightarrow> response \<times> state" where
  "PUT req st =
     (case req of
        Inl m \<Rightarrow> (\<lparr>status = 500, json = Error_body (if m = [] then ''failed to submit result'' else m)\<rparr>, st)
      | Inr b \<Rightarrow>
          if \<not> truthy (b_requestId b) then (\<lparr>status = 400, json = Error_body ''requestId required''\<rparr>, st)
          else (case b_stepCompleted b of
            Some sc \<Rightarrow> (\<lparr>status = 200, json = Step_ack sc (b_success b)\<rparr>, st)
          | None \<Rightarrow>
             (case pendingScreenshots st (the (b_requestId b)) of
                None \<Rightarrow> (\<lparr>status = 404, json = Error_body ''No pending request''\<rparr>, st)
              | Some w \<Rightarrow>
                  (\<lparr>status = 200, json = Ok_body\<rparr>,
                   invoke w (Resolved (submission b))
                     (clearTimeout w (registry_delete (the (b_requestId b)) st))))))"

section \<open>Runs of the registry\<close>

text \<open>
  Between two awaits a handler runs alone, so the registry changes by whole sections of
  code: the clock advances, a timer callback runs, a \<^verbatim>\<open>PUT\<close> is handled, a handler
  reaches lines 87 to 93, or a handler calls \<^verbatim>\<open>sendData\<close>.
\<close>

datatype event =
    Tick nat
  | Timer_fires nat
  | Put "string + put_body"
  | Register string nat
  | Send sendData_call

fun step :: "event \<Rightarrow> state \<Rightarrow> state option" where
  "step (Tick n) st = Some (st\<lparr>clock := clock st + n\<rparr>)"
| "step (Timer_fires w) st = timer_fires w st"
| "step (Put req) st = Some (snd (PUT req st))"
| "step (Register requestId timeoutMs) st = Some (snd (handleCaptureScreenshot_wait requestId timeoutMs st))"
| "step (Send c) st = Some (st\<lparr>sent := sent st @ [c]\<rparr>)"

fun run :: "event list \<Rightarrow> state \<Rightarrow> state option" where
  "run [] st = Some st"
| "run (e # es) st = (case step e st of None \<Rightarrow> None | Some st' \<Rightarrow> run es st')"

section \<open>Base64 and the data URL pattern\<close>

text \<open>
  \<^verbatim>\<open>Buffer.from(s, 'base64')\<close> and \<^verbatim>\<open>buf.toString('base64')\<close> belong to the runtime.
  The encoder writes the RFC 4648 alphabet with \<^verbatim>\<open>=\<close> padding.  The decoder accepts that
  alphabet and the URL-safe one, skips every other character, and stops at the first
  \<^verbatim>\<open>=\<close>; it never throws.  A buffer is a list of bytes.  Every index the encoder
  forms is below 64; the mask in \<open>enc\<close> keeps the lookup inside the table.
\<close>

type_synonym byte = "8 word"

definition table :: string where
  "table = ''ABCDEFGHIJKLMNOPQRSTUVWXYZabcdefghijklmnopqrstuvwxyz0123456789+/''"

definition enc :: "byte \<Rightarrow> char" where
  "enc i = table ! unat (i AND 0x3f)"

definition unbase64 :: "char \<Rightarrow> byte option" where
  "unbase64 c =
     (let n = (of_char c :: nat) in
      if 65 \<le> n \<and> n \<le> 90 then Some (of_nat (n - 65))
      else if 97 \<le> n \<and> n \<le> 122 then Some (of_nat (n - 71))
      else if 48 \<le> n \<and> n \<le> 57 then Some (of_nat (n + 4))
      else if n = 43 \<or> n = 45 then Some 62
      else if n = 47 \<or> n = 95 then Some 63
      else None)"

fun Buffer_toString_base64 :: "byte list \<Rightarrow> string" where
  "Buffer_toString_base64 (a # b # c # rest) =
     [enc (drop_bit 2 a),
      enc (push_bit 4 (a AND 3) OR drop_bit 4 b),
      enc (push_bit 2 (b AND 0x0f) OR drop_bit 6 c),
      enc (c AND 0x3f)] @ Buffer_toString_base64 rest"
| "Buffer_toString_base64 [a, b] =
     [enc (drop_bit 2 a),
      enc (push_bit 4 (a AND 3) OR drop_bit 4 b),
      enc (push_bit 2 (b AND 0x0f)),
      CHR ''='']"
| "Buffer_toString_base64 [a] =
     [enc (drop_bit 2 a), enc (push_bit 4 (a AND 3)), CHR ''='', CHR ''='']"
| "Buffer_toString_base64 [] = []"

fun sextets :: "string \<Rightarrow> byte list" where
  "sextets [] = []"
| "sextets (c # cs) =
     (case unbase64 c of
        Some v \<Rightarrow> v # sextets cs
      | None \<Rightarrow> if c = CHR ''='' then [] else sextets cs)"

fun decode_groups :: "byte list \<Rightarrow> byte list" where
  "decode_groups (a # b # c # d # rest) =
     [push_bit 2 (a AND 0x3f) OR drop_bit 4 (b AND 0x30),
      push_bit 4 (b AND 0x0f) OR drop_bit 2 (c AND 0x3c),
      push_bit 6 (c AND 0x03) OR (d AND 0x3f)] @ decode_groups rest"
| "decode_groups [a, b, c] =
     [push_bit 2 (a AND 0x3f) OR drop_bit 4 (b AND 0x30),
      push_bit 4 (b AND 0x0f) OR drop_bit 2 (c AND 0x3c)]"
| "decode_groups [a, b] = [push_bit 2 (a AND 0x3f) OR drop_bit 4 (b AND 0x30)]"
| "decode_groups [a] = []"
| "decode_groups [] = []"

definition Buffer_from_base64 :: "string \<Rightarrow> byte list" where
  "Buffer_from_base64 s = decode_groups (sextets s)"

text \<open>The class \<^verbatim>\<open>\s\<close> and the line terminators that \<^verbatim>\<open>.\<close> refuses, below 256.\<close>

definition is_space :: "char \<Rightarrow> bool" where
  "is_space c = ((of_char c :: nat) \<in> {9, 10, 11, 12, 13, 32, 160})"

definition line_terminator :: "char \<Rightarrow> bool" where
  "line_terminator c = ((of_char c :: nat) \<in> {10, 13})"

definition strip_whitespace :: "string \<Rightarrow> string" where
  "strip_whitespace s = filter (\<lambda>c. \<not> is_space c) s"

text \<open>
  \<^verbatim>\<open>s.match(/^data:([^;]+);base64,(.*)$/)\<close>: the first group cannot hold a semicolon, so
  it is the longest run without one after the scheme; the second group must reach the end
  of the input without meeting a line terminator.
\<close>

definition match_data_url :: "string \<Rightarrow> (string \<times> string) option" where
  "match_data_url s =
     (if \<not> startsWith s ''data:'' then None
      else let r = drop 5 s;
               m = takeWhile (\<lambda>c. c \<noteq> CHR '';'') r;
               rest = dropWhile (\<lambda>c. c \<noteq> CHR '';'') r
           in if m = [] then None
              else if \<not> startsWith rest '';base64,'' then None
              else if list_ex line_terminator (drop 8 rest) then None
              else Some (m, drop 8 rest))"

text \<open>The pattern read as a language: what a match is, without saying how to find it.\<close>

definition data_url_matches :: "string \<Rightarrow> string \<Rightarrow> string \<Rightarrow> bool" where
  "data_url_matches s m p \<longleftrightarrow>
     s = ''data:'' @ m @ '';base64,'' @ p \<and> m \<noteq> [] \<and> CHR '';'' \<notin> set m \<and>
     \<not> list_ex line_terminator p"

text \<open>Lines 114 to 124.\<close>

definition parse_image :: "string \<Rightarrow> string + string \<times> string" where
  "parse_image s =
     (if startsWith s ''data:''
      then case match_data_url s of
             None \<Rightarrow> Inl ''Unsupported data URL format''
           | Some (m, p) \<Rightarrow> Inr (if m = [] then ''image/jpeg'' else m, p)
      else Inr (''image/jpeg'', s))"

text \<open>
  Lines 126 to 139.  The error thrown for an empty buffer is thrown inside the
  \<^verbatim>\<open>try\<close>, so the \<^verbatim>\<open>catch\<close> replaces it.
\<close>

definition normalize_base64 :: "string \<Rightarrow> string + string" where
  "normalize_base64 base64Payload =
     (let buf = Buffer_from_base64 (strip_whitespace base64Payload)
      in if buf = [] then Inl ''Invalid base64 payload for screenshot''
         else Inr (Buffer_toString_base64 buf))"

definition dataUrl :: "string \<Rightarrow> string \<Rightarrow> string" where
  "dataUrl mimeType base64Payload = ''data:'' @ mimeType @ '';base64,'' @ base64Payload"

section \<open>The vision call\<close>

record content_item =
  ci_type :: string
  ci_text :: "string option"

record output_item =
  oi_type :: string
  oi_content :: "content_item list option"

record vision_request =
  authorization :: string
  input_text :: string
  input_image :: string

text \<open>
  The outcome of the \<^verbatim>\<open>fetch\<close> of lines 143 to 172: the call or the parse of its body
  throws, the response is not ok and carries a text, or it is ok and its \<^verbatim>\<open>output\<close>
  field is as given.
\<close>

datatype fetch_result =
    Fetch_throws string
  | Not_ok string
  | Ok_json "output_item list option"

definition extract_answer :: "output_item list option \<Rightarrow> string" where
  "extract_answer output =
     (let messageOutput = (case output of None \<Rightarrow> None
                           | Some items \<Rightarrow> List.find (\<lambda>item. oi_type item = ''message'') items);
          textContent = (case messageOutput of None \<Rightarrow> None
                         | Some item \<Rightarrow> (case oi_content item of None \<Rightarrow> None
                             | Some cs \<Rightarrow> List.find (\<lambda>item. ci_type item = ''output_text'') cs));
          text = (case textContent of None \<Rightarrow> None | Some item \<Rightarrow> ci_text item)
      in if truthy text then the text else ''No response text found'')"

section \<open>The tool handlers\<close>

record env =
  LIVEKIT_API_KEY :: "string option"
  LIVEKIT_API_SECRET :: "string option"
  LIVEKIT_URL :: "string option"
  NEXT_PUBLIC_LIVEKIT_URL :: "string option"
  OPENAI_API_KEY :: "string option"

text \<open>
  \<^verbatim>\<open>timeoutMs\<close> is a whole number of milliseconds and \<^verbatim>\<open>stepId\<close> a number of the
  model; \<open>None\<close> is \<^verbatim>\<open>undefined\<close>.
\<close>

record tool_parameters =
  p_roomName :: "string option"
  p_targetIdentity :: "string option"
  p_question :: "string option"
  p_timeoutMs :: "nat option"
  p_stepId :: "safe_integer option"

record toolCall =
  tc_name :: string
  tc_id :: string
  parameters :: tool_parameters

text \<open>\<open>call_id\<close> is \<^verbatim>\<open>message.call?.id\<close> and \<open>call_user_id\<close> is \<^verbatim>\<open>message.call?.user?.id\<close>.\<close>

record callMessage =
  m_type :: string
  call_id :: "string option"
  call_user_id :: "string option"
  tool_call :: "toolCall option"

definition digit :: "nat \<Rightarrow> char" where
  "digit n = ''0123456789'' ! n"

fun decimal :: "nat \<Rightarrow> string" where
  "decimal n = (if n < 10 then [digit n] else decimal (n div 10) @ [digit (n mod 10)])"

declare decimal.simps [simp del]

text \<open>\<^verbatim>\<open>`${n}`\<close> for a number \<open>n\<close> of the model.\<close>

definition show_number :: "safe_integer \<Rightarrow> string" where
  "show_number n =
     (let i = Rep_safe_integer n
      in if i < 0 then CHR ''-'' # decimal (nat (- i)) else decimal (nat i))"

text \<open>
  Line 74 and line 210.  \<open>rnd\<close> is what \<^verbatim>\<open>Math.random().toString(36).slice(2)\<close> returns
  and the clock is \<^verbatim>\<open>Date.now()\<close>.
\<close>

definition new_requestId :: "string \<Rightarrow> nat \<Rightarrow> string" where
  "new_requestId rnd now = ''req_'' @ rnd @ ''_'' @ decimal now"

definition replace_scheme :: "string \<Rightarrow> string" where
  "replace_scheme wsUrl =
     (let s = (if startsWith wsUrl ''wss:'' then ''https:'' @ drop 4 wsUrl else wsUrl)
      in if startsWith s ''ws:'' then ''http:'' @ drop 3 s else s)"

text \<open>
  Lines 59 to 72 and 195 to 208: \<open>None\<close> when the handler throws
  \<^verbatim>\<open>LiveKit not configured\<close>, otherwise the base address of the room service client.
\<close>

definition httpBase :: "env \<Rightarrow> string option" where
  "httpBase e =
     (let wsUrl = or_else (LIVEKIT_URL e) (NEXT_PUBLIC_LIVEKIT_URL e)
      in if \<not> truthy (LIVEKIT_API_KEY e) \<or> \<not> truthy (LIVEKIT_API_SECRET e) \<or> \<not> truthy wsUrl then None
         else case NEXT_PUBLIC_LIVEKIT_URL e of
                Some u \<Rightarrow> if startsWith u ''http'' then Some u else Some (replace_scheme (the wsUrl))
              | None \<Rightarrow> Some (replace_scheme (the wsUrl)))"

text \<open>The locals of \<^verbatim>\<open>handleCaptureScreenshot\<close> that live across its awaits.\<close>

record capture_ctx =
  c_question :: string
  c_requestId :: string
  c_timeoutMs :: nat

text \<open>
  Lines 49 to 84, up to the call of \<^verbatim>\<open>sendData\<close>: \<open>Inl m\<close> is a thrown error with
  message \<open>m\<close>.  \<open>sent\<close> records the calls of \<^verbatim>\<open>sendData\<close>.
\<close>

definition handleCaptureScreenshot_send ::
  "env \<Rightarrow> toolCall \<Rightarrow> callMessage \<Rightarrow> string \<Rightarrow> state \<Rightarrow> string + capture_ctx \<times> state" where
  "handleCaptureScreenshot_send e toolCall message rnd st =
     (let p = parameters toolCall;
          timeoutMs = (case p_timeoutMs p of None \<Rightarrow> 25000 | Some t \<Rightarrow> t);
          roomName = or_else (p_roomName p) (call_id message);
          targetIdentity = or_else (p_targetIdentity p) (call_user_id message)
      in if \<not> truthy roomName \<or> \<not> truthy (p_question p) \<or> \<not> truthy targetIdentity
         then Inl ''roomName, question, and targetIdentity are required for capture_screenshot''
         else case httpBase e of
           None \<Rightarrow> Inl ''LiveKit not configured''
         | Some base \<Rightarrow>
             (let requestId = new_requestId rnd (clock st);
                  payload = Capture_screenshot (the (p_question p)) requestId
              in Inr (\<lparr>c_question = the (p_question p), c_requestId = requestId,
                        c_timeoutMs = timeoutMs\<rparr>,
                      st\<lparr>sent := sent st @
                           [\<lparr>host = base, room = the roomName, data = payload,
                             destinationIdentities = [the targetIdentity]\<rparr>]\<rparr>)))"

text \<open>
  Lines 95 to 180, run with the object the promise resolved with.  \<open>fetch\<close> answers the
  request of lines 143 to 163.
\<close>

definition handleCaptureScreenshot_answer ::
  "env \<Rightarrow> string \<Rightarrow> screenshotData \<Rightarrow> (vision_request \<Rightarrow> fetch_result) \<Rightarrow> string + string" where
  "handleCaptureScreenshot_answer e q d fetch =
     (let effectiveQuestion =
            the (or_else (Some q) (or_else (question d) (Some ''What do you see?'')))
      in if \<not> truthy (imageBase64 d) \<and> truthy (legacyAnswer d) then Inr (the (legacyAnswer d))
         else if \<not> truthy (OPENAI_API_KEY e) then Inr (''Mock vision answer to: '' @ effectiveQuestion)
         else if \<not> truthy (imageBase64 d) then Inl ''Missing imageBase64 in screenshot submission''
         else case parse_image (the (imageBase64 d)) of
           Inl err \<Rightarrow> Inl err
         | Inr (mimeType, base64Payload) \<Rightarrow>
            (case normalize_base64 base64Payload of
               Inl err \<Rightarrow> Inl err
             | Inr clean \<Rightarrow>
                (case fetch \<lparr>authorization = ''Bearer '' @ the (OPENAI_API_KEY e),
                             input_text = effectiveQuestion,
                             input_image = dataUrl mimeType clean\<rparr> of
                   Fetch_throws m \<Rightarrow> Inl m
                 | Not_ok errText \<Rightarrow> Inl (''Vision LLM error: '' @ errText)
                 | Ok_json output \<Rightarrow> Inr (extract_answer output))))"

text \<open>Lines 185 to 220, up to the call of \<^verbatim>\<open>sendData\<close>; the result is \<open>stepId\<close>.\<close>

definition handleMarkStepComplete_send ::
  "env \<Rightarrow> toolCall \<Rightarrow> callMessage \<Rightarrow> string \<Rightarrow> state \<Rightarrow> string + safe_integer \<times> state" where
  "handleMarkStepComplete_send e toolCall message rnd st =
     (let p = parameters toolCall;
          roomName = or_else (p_roomName p) (call_id message);
          targetIdentity = or_else (p_targetIdentity p) (call_user_id message)
      in if \<not> truthy roomName \<or> \<not> truthy targetIdentity \<or> p_stepId p = None
         then Inl ''roomName, targetIdentity, and stepId are required for markStepComplete''
         else case httpBase e of
           None \<Rightarrow> Inl ''LiveKit not configured''
         | Some base \<Rightarrow>
             (let requestId = new_requestId rnd (clock st);
                  payload = Mark_step_complete (the (p_stepId p)) requestId
              in Inr (the (p_stepId p),
                      st\<lparr>sent := sent st @
                           [\<lparr>host = base, room = the roomName, data = payload,
                             destinationIdentities = [the targetIdentity]\<rparr>]\<rparr>)))"

text \<open>Line 222.\<close>

definition handleMarkStepComplete_return :: "safe_integer \<Rightarrow> string" where
  "handleMarkStepComplete_return stepId = ''Step '' @ show_number stepId @ '' marked complete''"

section \<open>The dispatcher\<close>

text \<open>
  A \<^verbatim>\<open>POST\<close> runs in up to three sections, separated by its awaits: up to the call of
  \<^verbatim>\<open>sendData\<close>; from the settling of that call to the response or to the registration
  of the waiter; and from the settling of the pending promise to the response.
\<close>

datatype post_state =
    Responded response
  | Sending_screenshot toolCall capture_ctx
  | Sending_step toolCall safe_integer
  | Waiting toolCall capture_ctx nat

text \<open>Lines 294 to 299 and lines 303 to 307.\<close>

definition tool_succeeded :: "toolCall \<Rightarrow> string \<Rightarrow> response" where
  "tool_succeeded toolCall result =
     \<lparr>status = 200, json = Tool_success (tc_name toolCall) (tc_id toolCall) result\<rparr>"

definition tool_failed :: "toolCall \<Rightarrow> string \<Rightarrow> response" where
  "tool_failed toolCall m =
     \<lparr>status = 500,
      json = Tool_error (''Tool execution failed: '' @ m) (tc_name toolCall) (tc_id toolCall)\<rparr>"

definition not_handled :: "callMessage \<Rightarrow> response" where
  "not_handled message =
     \<lparr>status = 200,
      json = Event_received (''Event type '' @ [CHR 0x27] @ m_type message @ [CHR 0x27] @
                             '' received but not actively handled in this demo.'')\<rparr>"

text \<open>
  Lines 225 to 291 from the normalised message on: \<open>Inl m\<close> is a request whose
  \<^verbatim>\<open>req.json()\<close> throws, \<open>Inr None\<close> a payload that yields no message.
\<close>

definition POST ::
  "env \<Rightarrow> string + callMessage option \<Rightarrow> string \<Rightarrow> state \<Rightarrow> post_state \<times> state" where
  "POST e req rnd st =
     (case req of
        Inl m \<Rightarrow> (Responded \<lparr>status = 500, json = Webhook_failed m\<rparr>, st)
      | Inr None \<Rightarrow>
          (Responded \<lparr>status = 400,
                      json = Error_body ''Invalid event structure: Missing message object.''\<rparr>, st)
      | Inr (Some message) \<Rightarrow>
          (case tool_call message of
             None \<Rightarrow> (Responded (not_handled message), st)
           | Some toolCall \<Rightarrow>
               if m_type message \<noteq> ''tool-call-attempt'' then (Responded (not_handled message), st)
               else if tc_name toolCall = ''capture_screenshot'' \<or> tc_name toolCall = ''captureScreenshot''
               then (case handleCaptureScreenshot_send e toolCall message rnd st of
                       Inl m \<Rightarrow> (Responded (tool_failed toolCall m), st)
                     | Inr (ctx, st') \<Rightarrow> (Sending_screenshot toolCall ctx, st'))
               else if tc_name toolCall = ''markStepComplete''
               then (case handleMarkStepComplete_send e toolCall message rnd st of
                       Inl m \<Rightarrow> (Responded (tool_failed toolCall m), st)
                     | Inr (stepId, st') \<Rightarrow> (Sending_step toolCall stepId, st'))
               else (Responded \<lparr>status = 400,
                                json = Error_body (''Unknown tool: '' @ tc_name toolCall)\<rparr>, st)))"

text \<open>
  The section after \<^verbatim>\<open>await roomService.sendData(...)\<close>: \<open>rejected = Some m\<close> when the
  transport rejects with message \<open>m\<close>.
\<close>

definition POST_sent :: "post_state \<Rightarrow> string option \<Rightarrow> state \<Rightarrow> post_state \<times> state" where
  "POST_sent ps rejected st =
     (case ps of
        Sending_screenshot toolCall ctx \<Rightarrow>
          (case rejected of
             Some m \<Rightarrow> (Responded (tool_failed toolCall m), st)
           | None \<Rightarrow>
               (let (w, st') = handleCaptureScreenshot_wait (c_requestId ctx) (c_timeoutMs ctx) st
                in (Waiting toolCall ctx w, st')))
      | Sending_step toolCall stepId \<Rightarrow>
          (case rejected of
             Some m \<Rightarrow> (Responded (tool_failed toolCall m), st)
           | None \<Rightarrow> (Responded (tool_succeeded toolCall (handleMarkStepComplete_return stepId)), st))
      | _ \<Rightarrow> (ps, st))"

text \<open>The section after the pending promise settles with \<open>x\<close>.\<close>

definition POST_settled ::
  "env \<Rightarrow> post_state \<Rightarrow> settlement \<Rightarrow> (vision_request \<Rightarrow> fetch_result) \<Rightarrow> post_state" where
  "POST_settled e ps x fetch =
     (case ps of
        Waiting toolCall ctx w \<Rightarrow>
          (case x of
             Rejected m \<Rightarrow> Responded (tool_failed toolCall m)
           | Resolved d \<Rightarrow>
               (case handleCaptureScreenshot_answer e (c_question ctx) d fetch of
                  Inl m \<Rightarrow> Responded (tool_failed toolCall m)
                | Inr answer \<Rightarrow> Responded (tool_succeeded toolCall answer)))
      | _ \<Rightarrow> ps)"

section \<open>Properties of runs\<close>

text \<open>
  A state is consistent when every registry entry points at a scheduled timer that closes
  over the entry's own request id, a promise with a scheduled timer has been created and
  none of its continuations has been invoked yet, promises not yet created have no
  invocation, and no promise has more than one.
\<close>

definition consistent :: "state \<Rightarrow> bool" where
  "consistent st \<longleftrightarrow>
     (\<forall>r w. pendingScreenshots st r = Some w \<longrightarrow> (\<exists>d. timers st w = Some (d, r))) \<and>
     (\<forall>w d r. timers st w = Some (d, r) \<longrightarrow> w < created st \<and> calls st w = []) \<and>
     (\<forall>w. created st \<le> w \<longrightarrow> calls st w = []) \<and>
     (\<forall>w. length (calls st w) \<le> 1)"


definition registers :: "string \<Rightarrow> event \<Rightarrow> bool" where
  "registers requestId e = (case e of Register r t \<Rightarrow> r = requestId | _ \<Rightarrow> False)"

text \<open>
  \<open>deliver_fails requestId st\<close>: in state \<open>st\<close> every submission for \<open>requestId\<close> is
  answered 404 and leaves the state as it is.
\<close>

definition deliver_fails :: "string \<Rightarrow> state \<Rightarrow> bool" where
  "deliver_fails requestId st \<longleftrightarrow>
     (\<forall>b. b_requestId b = Some requestId \<and> b_stepCompleted b = None \<longrightarrow>
          PUT (Inr b) st = (\<lparr>status = 404, json = Error_body ''No pending request''\<rparr>, st))"


text \<open>
  \<open>unmentioned requestId st\<close>: no entry and no scheduled timer holds \<open>requestId\<close>.
  \<open>sole_waiter w requestId st\<close>: promise \<open>w\<close> is the only one whose timer holds
  \<open>requestId\<close>, and either the entry for \<open>requestId\<close> is \<open>w\<close>, its timer is scheduled and
  nothing has been invoked on it, or the entry and the timer are gone and exactly one
  continuation of \<open>w\<close> has been invoked.
\<close>

definition unmentioned :: "string \<Rightarrow> state \<Rightarrow> bool" where
  "unmentioned requestId st \<longleftrightarrow>
     pendingScreenshots st requestId = None \<and> (\<forall>w d. timers st w \<noteq> Some (d, requestId))"

definition sole_waiter :: "nat \<Rightarrow> string \<Rightarrow> state \<Rightarrow> bool" where
  "sole_waiter w requestId st \<longleftrightarrow>
     (\<forall>w' d. timers st w' = Some (d, requestId) \<longrightarrow> w' = w) \<and>
     (pendingScreenshots st requestId = Some w \<and> (\<exists>d. timers st w = Some (d, requestId)) \<and>
        calls st w = [] \<or>
      pendingScreenshots st requestId = None \<and> timers st w = None \<and> length (calls st w) = 1)"

section \<open>Sample inputs\<close>

text \<open>
  A server with the room service configured and no inference credential, a tool call and
  its message with the room and the participant in the call context, a result submission,
  and an inference endpoint that cannot be reached.
\<close>

definition example_env :: env where
  "example_env =
     \<lparr>LIVEKIT_API_KEY = Some ''key'', LIVEKIT_API_SECRET = Some ''secret'',
      LIVEKIT_URL = Some ''wss://rooms.example'', NEXT_PUBLIC_LIVEKIT_URL = None,
      OPENAI_API_KEY = None\<rparr>"

definition example_call :: "string \<Rightarrow> string option \<Rightarrow> safe_integer option \<Rightarrow> toolCall" where
  "example_call n q s =
     \<lparr>tc_name = n, tc_id = ''call_1'',
      parameters = \<lparr>p_roomName = None, p_targetIdentity = None, p_question = q,
                    p_timeoutMs = None, p_stepId = s\<rparr>\<rparr>"

definition example_message :: "toolCall \<Rightarrow> callMessage" where
  "example_message toolCall =
     \<lparr>m_type = ''tool-call-attempt'', call_id = Some ''room-1'', call_user_id = Some ''user-1'',
      tool_call = Some toolCall\<rparr>"

definition example_body :: "string option \<Rightarrow> string option \<Rightarrow> put_body" where
  "example_body img answer =
     \<lparr>b_requestId = Some ''req_k3f_7'', b_imageBase64 = img, b_question = None,
      b_answer = answer, b_stepCompleted = None, b_success = None\<rparr>"

definition no_fetch :: "vision_request \<Rightarrow> fetch_result" where
  "no_fetch request = Fetch_throws ''fetch failed''"

section \<open>Projections of the registry operations\<close>

lemma registry_delete_simps [simp]:
  "pendingScreenshots (registry_delete r st) = (pendingScreenshots st)(r := None)"
  "timers (registry_delete r st) = timers st"
  "calls (registry_delete r st) = calls st"
  "created (registry_delete r st) = created st"
  "sent (registry_delete r st) = sent st"
  "clock (registry_delete r st) = clock st"
  by (simp_all add: registry_delete_def)

lemma clearTimeout_simps [simp]:
  "pendingScreenshots (clearTimeout w st) = pendingScreenshots st"
  "timers (clearTimeout w st) = (timers st)(w := None)"
  "calls (clearTimeout w st) = calls st"
  "created (clearTimeout w st) = created st"
  "sent (clearTimeout w st) = sent st"
  "clock (clearTimeout w st) = clock st"
  by (simp_all add: clearTimeout_def)

lemma invoke_simps [simp]:
  "pendingScreenshots (invoke w x st) = pendingScreenshots st"
  "timers (invoke w x st) = timers st"
  "calls (invoke w x st) = (calls st)(w := calls st w @ [(clock st, x)])"
  "created (invoke w x st) = created st"
  "sent (invoke w x st) = sent st"
  "clock (invoke w x st) = clock st"
  by (simp_all add: invoke_def)

lemma wait_simps [simp]:
  "fst (handleCaptureScreenshot_wait r t st) = created st"
  "pendingScreenshots (snd (handleCaptureScreenshot_wait r t st)) = (pendingScreenshots st)(r \<mapsto> created st)"
  "timers (snd (handleCaptureScreenshot_wait r t st)) =
     (timers st)(created st \<mapsto> (clock st + setTimeout_delay t, r))"
  "calls (snd (handleCaptureScreenshot_wait r t st)) = calls st"
  "created (snd (handleCaptureScreenshot_wait r t st)) = Suc (created st)"
  "sent (snd (handleCaptureScreenshot_wait r t st)) = sent st"
  "clock (snd (handleCaptureScreenshot_wait r t st)) = clock st"
  by (simp_all add: handleCaptureScreenshot_wait_def Let_def)

section \<open>The base64 codec inverts itself\<close>

lemma byte_eqI:
  assumes "\<And>n. n \<in> {0, 1, 2, 3, 4, 5, 6, 7} \<Longrightarrow> bit a n = bit b n"
  shows "a = (b :: byte)"
proof (rule bit_word_eqI)
  fix n :: nat
  assume "n < LENGTH(8)"
  then have "n \<in> {0, 1, 2, 3, 4, 5, 6, 7}" by auto
  then show "bit a n = bit b n" by (rule assms)
qed

lemma table_inverse: "list_all (\<lambda>i. unbase64 (table ! i) = Some (of_nat i)) [0..<64]"
  by (simp add: table_def unbase64_def upt_rec)

lemma table_clean: "list_all (\<lambda>c. \<not> is_space c \<and> c \<noteq> CHR ''='') table"
  by (simp add: table_def is_space_def)

lemma sextet_bound: "unat ((i::byte) AND 0x3f) < 64"
proof -
  have "i AND 0x3f \<le> 0x3f" by (rule word_and_le1)
  then have "unat (i AND 0x3f) \<le> 63" by (simp add: word_le_nat_alt)
  then show ?thesis by simp
qed

lemma unbase64_enc: "unbase64 (enc i) = Some (i AND 0x3f)"
proof -
  have "unat (i AND 0x3f) \<in> set [0..<64]"
    using sextet_bound [of i] by simp
  with table_inverse have "unbase64 (table ! unat (i AND 0x3f)) = Some (of_nat (unat (i AND 0x3f)))"
    unfolding list_all_iff by blast
  then show ?thesis by (simp add: enc_def)
qed

lemma enc_clean: "\<not> is_space (enc i) \<and> enc i \<noteq> CHR ''=''"
proof -
  have "length table = 64" by (simp add: table_def)
  then have "enc i \<in> set table"
    using sextet_bound [of i] by (simp add: enc_def)
  with table_clean show ?thesis unfolding list_all_iff by blast
qed

lemma sextets_enc: "sextets (enc i # cs) = (i AND 0x3f) # sextets cs"
  by (simp add: unbase64_enc)

lemma sextets_pad: "sextets (CHR ''='' # cs) = []"
  by (simp add: unbase64_def)

lemma group_of_three:
  "decode_groups ((drop_bit 2 a AND 0x3f) # ((push_bit 4 (a AND 3) OR drop_bit 4 b) AND 0x3f) #
                  ((push_bit 2 (b AND 0x0f) OR drop_bit 6 c) AND 0x3f) # ((c AND 0x3f) AND 0x3f) # rest)
   = a # b # c # decode_groups rest"
  apply simp
  apply (intro conjI)
    apply (rule byte_eqI, elim insertE emptyE, simp_all add: bit_simps)+
  done

lemma group_of_two:
  "decode_groups [drop_bit 2 a AND 0x3f, (push_bit 4 (a AND 3) OR drop_bit 4 b) AND 0x3f,
                  push_bit 2 (b AND 0x0f) AND 0x3f] = [a, b]"
  apply simp
  apply (intro conjI)
    apply (rule byte_eqI, elim insertE emptyE, simp_all add: bit_simps)+
  done

lemma group_of_one:
  "decode_groups [drop_bit 2 a AND 0x3f, push_bit 4 (a AND 3) AND 0x3f] = [a]"
  apply simp
    apply (rule byte_eqI, elim insertE emptyE, simp_all add: bit_simps)+
  done

lemma base64_roundtrip: "Buffer_from_base64 (Buffer_toString_base64 bs) = bs"
proof (induction bs rule: Buffer_toString_base64.induct)
  case (1 a b c rest)
  then show ?case
    unfolding Buffer_from_base64_def Buffer_toString_base64.simps append.simps sextets_enc
    by (simp only: group_of_three)
next
  case (2 a b)
  show ?case
    unfolding Buffer_from_base64_def Buffer_toString_base64.simps sextets_enc sextets_pad
    by (rule group_of_two)
next
  case (3 a)
  show ?case
    unfolding Buffer_from_base64_def Buffer_toString_base64.simps sextets_enc sextets_pad
    by (rule group_of_one)
next
  case 4
  show ?case by (simp add: Buffer_from_base64_def)
qed

lemma pad_clean: "\<not> is_space (CHR ''='')"
  by (simp add: is_space_def)

lemma toString_clean: "strip_whitespace (Buffer_toString_base64 bs) = Buffer_toString_base64 bs"
  by (induction bs rule: Buffer_toString_base64.induct)
     (simp_all add: strip_whitespace_def enc_clean pad_clean)

text \<open>
  Claim C7.  For every non-empty buffer \<open>b\<close>, the normalization of lines 126 to 139
  accepts the base64 text of \<open>b\<close> (stripping removes nothing, the decoded buffer is not
  empty, the re-encoded payload is the text again), and decoding the payload it returns
  gives \<open>b\<close> back.
\<close>

theorem normalization_roundtrip:
  "b \<noteq> [] \<Longrightarrow>
     (\<exists>clean. normalize_base64 (Buffer_toString_base64 b) = Inr clean \<and>
              Buffer_from_base64 clean = b)"
  by (simp add: normalize_base64_def toString_clean base64_roundtrip)

theorem normalization_roundtrip_witness:
  "[0x89, 0x50, 0x4e, 0x47] \<noteq> ([] :: byte list) \<and>
   (\<exists>clean. normalize_base64 (Buffer_toString_base64 [0x89, 0x50, 0x4e, 0x47]) = Inr clean \<and>
            Buffer_from_base64 clean = [0x89, 0x50, 0x4e, 0x47])"
  using normalization_roundtrip [of "[0x89, 0x50, 0x4e, 0x47]"] by simp

section \<open>Consistency is invariant\<close>

lemma consistentD1: "consistent st \<Longrightarrow> pendingScreenshots st r = Some w \<Longrightarrow> \<exists>d. timers st w = Some (d, r)"
  by (simp add: consistent_def)

lemma consistentD2: "consistent st \<Longrightarrow> timers st w = Some (d, r) \<Longrightarrow> w < created st \<and> calls st w = []"
  unfolding consistent_def by blast

lemma consistentD3: "consistent st \<Longrightarrow> created st \<le> w \<Longrightarrow> calls st w = []"
  by (simp add: consistent_def)

lemma consistentD4: "consistent st \<Longrightarrow> length (calls st w) \<le> 1"
  by (simp add: consistent_def)

lemma consistent_init: "consistent init"
  by (simp add: consistent_def init_def)

lemma consistent_wait:
  assumes "consistent st"
  shows "consistent (snd (handleCaptureScreenshot_wait r t st))"
proof -
  have fresh: "pendingScreenshots st r' \<noteq> Some (created st)" for r'
    using consistentD1 [OF assms, of r' "created st"] consistentD2 [OF assms, of "created st"] by auto
  show ?thesis
    unfolding consistent_def
    using consistentD1 [OF assms] consistentD2 [OF assms] consistentD3 [OF assms] consistentD4 [OF assms] fresh
    by (auto simp: less_Suc_eq)
qed

lemma consistent_resolve:
  assumes "consistent st" and "pendingScreenshots st r = Some w"
  shows "consistent (invoke w x (clearTimeout w (registry_delete r st)))"
proof -
  obtain d where d: "timers st w = Some (d, r)"
    using consistentD1 [OF assms] by blast
  have empty: "calls st w = []" and lt: "w < created st"
    using consistentD2 [OF assms(1) d] by simp_all
  have other: "pendingScreenshots st r' = Some w \<Longrightarrow> r' = r" for r'
    using consistentD1 [OF assms(1), of r' w] d by auto
  show ?thesis
    unfolding consistent_def
    using consistentD1 [OF assms(1)] consistentD2 [OF assms(1)] consistentD3 [OF assms(1)] consistentD4 [OF assms(1)] empty other lt
    by (auto simp: less_Suc_eq)
qed

lemma consistent_fire:
  assumes "consistent st" and "timer_fires w st = Some st'"
  shows "consistent st'"
proof -
  from assms(2) obtain d r where d: "timers st w = Some (d, r)"
    and st': "st' = invoke w (Rejected ''capture_screenshot timed out'') (registry_delete r (clearTimeout w st))"
    by (auto simp: timer_fires_def split: option.splits if_splits)
  have empty: "calls st w = []" and lt: "w < created st"
    using consistentD2 [OF assms(1) d] by simp_all
  have other: "pendingScreenshots st r' = Some w \<Longrightarrow> r' = r" for r'
    using consistentD1 [OF assms(1), of r' w] d by auto
  show ?thesis
    unfolding consistent_def st'
    using consistentD1 [OF assms(1)] consistentD2 [OF assms(1)] consistentD3 [OF assms(1)] consistentD4 [OF assms(1)] empty other lt
    by (auto simp: less_Suc_eq)
qed

lemma consistent_PUT: "consistent st \<Longrightarrow> consistent (snd (PUT req st))"
  by (auto simp: PUT_def consistent_resolve split: sum.splits option.splits)

lemma consistent_step: "consistent st \<Longrightarrow> step e st = Some st' \<Longrightarrow> consistent st'"
proof (cases e)
  case (Tick n)
  assume "consistent st" "step e st = Some st'"
  with Tick show ?thesis by (auto simp: consistent_def)
next
  case (Timer_fires w)
  assume "consistent st" "step e st = Some st'"
  with Timer_fires show ?thesis by (auto intro: consistent_fire)
next
  case (Put req)
  assume "consistent st" "step e st = Some st'"
  with Put show ?thesis by (auto intro: consistent_PUT)
next
  case (Register r t)
  assume "consistent st" "step e st = Some st'"
  with Register show ?thesis by (auto intro: consistent_wait)
next
  case (Send c)
  assume "consistent st" "step e st = Some st'"
  with Send show ?thesis by (auto simp: consistent_def)
qed

lemma consistent_run: "consistent st \<Longrightarrow> run es st = Some st' \<Longrightarrow> consistent st'"
  by (induction es arbitrary: st) (auto split: option.splits dest: consistent_step)

section \<open>Deliveries and timeouts along a run\<close>

lemma PUT_unknown:
  assumes "pendingScreenshots st r = None" and "r \<noteq> []"
  shows "deliver_fails r st"
  using assms by (simp add: deliver_fails_def PUT_def truthy_def)

lemma PUT_effect:
  "snd (PUT req st) = st \<or>
   (\<exists>b w. req = Inr b \<and> b_stepCompleted b = None \<and> pendingScreenshots st (the (b_requestId b)) = Some w \<and>
      b_requestId b = Some (the (b_requestId b)) \<and>
      snd (PUT req st) = invoke w (Resolved (submission b)) (clearTimeout w (registry_delete (the (b_requestId b)) st)))"
  by (auto simp: PUT_def truthy_def split: sum.splits option.splits)



lemma unregistered_step:
  "pendingScreenshots st r = None \<Longrightarrow> step e st = Some st' \<Longrightarrow> \<not> registers r e \<Longrightarrow>
     pendingScreenshots st' r = None"
  by (cases e)
     (auto simp: registers_def timer_fires_def PUT_def split: option.splits if_splits sum.splits)

lemma unregistered_run:
  "pendingScreenshots st r = None \<Longrightarrow> run es st = Some st' \<Longrightarrow> list_all (\<lambda>e. \<not> registers r e) es \<Longrightarrow>
     pendingScreenshots st' r = None"
proof (induction es arbitrary: st)
  case Nil
  then show ?case by simp
next
  case (Cons e es)
  from Cons.prems(2) obtain st1 where s: "step e st = Some st1" and r: "run es st1 = Some st'"
    by (auto split: option.splits)
  from Cons.prems(3) have ne: "\<not> registers r e" and rest: "list_all (\<lambda>e. \<not> registers r e) es"
    by simp_all
  have "pendingScreenshots st1 r = None" by (rule unregistered_step [OF Cons.prems(1) s ne])
  then show ?case using r rest by (rule Cons.IH)
qed

lemma unmentioned_step:
  assumes "unmentioned r st" and "step e st = Some st'" and "\<not> registers r e"
  shows "unmentioned r st'"
proof (cases e)
  case (Tick n)
  with assms show ?thesis by (auto simp: unmentioned_def)
next
  case (Send c)
  with assms show ?thesis by (auto simp: unmentioned_def)
next
  case (Register r' t')
  with assms show ?thesis by (auto simp: unmentioned_def registers_def split: if_splits)
next
  case (Timer_fires w')
  with assms show ?thesis
    by (auto simp: unmentioned_def timer_fires_def split: option.splits if_splits)
next
  case (Put req)
  from PUT_effect [of req st] Put assms show ?thesis
    by (auto simp: unmentioned_def split: if_splits)
qed

lemma unmentioned_run:
  "unmentioned r st \<Longrightarrow> run es st = Some st' \<Longrightarrow> list_all (\<lambda>e. \<not> registers r e) es \<Longrightarrow>
     unmentioned r st'"
proof (induction es arbitrary: st)
  case Nil
  then show ?case by simp
next
  case (Cons e es)
  from Cons.prems(2) obtain st1 where s: "step e st = Some st1" and r: "run es st1 = Some st'"
    by (auto split: option.splits)
  from Cons.prems(3) have ne: "\<not> registers r e" and rest: "list_all (\<lambda>e. \<not> registers r e) es"
    by simp_all
  have "unmentioned r st1" by (rule unmentioned_step [OF Cons.prems(1) s ne])
  then show ?case using r rest by (rule Cons.IH)
qed

lemma sole_waiter_created:
  assumes c: "consistent st" and s: "sole_waiter w r st"
  shows "w < created st"
proof (rule ccontr)
  assume "\<not> w < created st"
  then have "created st \<le> w" by simp
  then have "calls st w = []" by (rule consistentD3 [OF c])
  moreover have "timers st w = None"
    using consistentD2 [OF c, of w] \<open>\<not> w < created st\<close> by (cases "timers st w") auto
  ultimately show False using s by (auto simp: sole_waiter_def)
qed

lemma sole_waiter_other:
  assumes s: "sole_waiter w r st" and t: "timers st w' = Some (d', r')" and ne: "r' \<noteq> r"
  shows "w' \<noteq> w"
  using assms by (auto simp: sole_waiter_def)

lemma sole_waiter_settle:
  assumes s: "sole_waiter w r st" and t: "timers st w' = Some (d', r)"
  shows "sole_waiter w r (invoke w' x (registry_delete r (clearTimeout w' st)))"
    and "sole_waiter w r (invoke w' x (clearTimeout w' (registry_delete r st)))"
proof -
  from s t have eq: "w' = w" by (auto simp: sole_waiter_def)
  with s t have "calls st w = []" by (auto simp: sole_waiter_def)
  with s eq show "sole_waiter w r (invoke w' x (registry_delete r (clearTimeout w' st)))"
    and "sole_waiter w r (invoke w' x (clearTimeout w' (registry_delete r st)))"
    by (auto simp: sole_waiter_def)
qed

lemma sole_waiter_aside:
  assumes s: "sole_waiter w r st" and t: "timers st w' = Some (d', r')" and ne: "r' \<noteq> r"
  shows "sole_waiter w r (invoke w' x (registry_delete r' (clearTimeout w' st)))"
    and "sole_waiter w r (invoke w' x (clearTimeout w' (registry_delete r' st)))"
proof -
  from sole_waiter_other [OF s t ne] have "w' \<noteq> w" .
  with s ne show "sole_waiter w r (invoke w' x (registry_delete r' (clearTimeout w' st)))"
    and "sole_waiter w r (invoke w' x (clearTimeout w' (registry_delete r' st)))"
    by (auto simp: sole_waiter_def)
qed

lemma sole_waiter_step:
  assumes c: "consistent st" and s: "sole_waiter w r st" and e: "step e st = Some st'"
    and nr: "\<not> registers r e"
  shows "sole_waiter w r st'"
proof (cases e)
  case (Tick n)
  with s e show ?thesis by (auto simp: sole_waiter_def)
next
  case (Send c)
  with s e show ?thesis by (auto simp: sole_waiter_def)
next
  case (Register r' t')
  from nr Register have ne: "r' \<noteq> r" by (simp add: registers_def)
  from sole_waiter_created [OF c s] have "w \<noteq> created st" by simp
  with Register e s ne show ?thesis by (auto simp: sole_waiter_def split: if_splits)
next
  case (Timer_fires w')
  with e obtain d' r' where t': "timers st w' = Some (d', r')"
    and st': "st' = invoke w' (Rejected ''capture_screenshot timed out'') (registry_delete r' (clearTimeout w' st))"
    by (auto simp: timer_fires_def split: option.splits if_splits)
  show ?thesis
  proof (cases "r' = r")
    case True
    with t' show ?thesis unfolding st' by (simp add: sole_waiter_settle(1) [OF s])
  next
    case False
    with t' show ?thesis unfolding st' by (simp add: sole_waiter_aside(1) [OF s])
  qed
next
  case (Put req)
  from PUT_effect [of req st] show ?thesis
  proof
    assume "snd (PUT req st) = st"
    with Put e s show ?thesis by simp
  next
    assume "\<exists>b w'. req = Inr b \<and> b_stepCompleted b = None \<and> pendingScreenshots st (the (b_requestId b)) = Some w' \<and>
      b_requestId b = Some (the (b_requestId b)) \<and>
      snd (PUT req st) = invoke w' (Resolved (submission b)) (clearTimeout w' (registry_delete (the (b_requestId b)) st))"
    then obtain b w' where p: "pendingScreenshots st (the (b_requestId b)) = Some w'"
      and eq: "snd (PUT req st) = invoke w' (Resolved (submission b)) (clearTimeout w' (registry_delete (the (b_requestId b)) st))"
      by blast
    from Put e eq have st': "st' = invoke w' (Resolved (submission b)) (clearTimeout w' (registry_delete (the (b_requestId b)) st))"
      by simp
    from consistentD1 [OF c p] obtain d' where t': "timers st w' = Some (d', the (b_requestId b))" by blast
    show ?thesis
    proof (cases "the (b_requestId b) = r")
      case True
      with t' show ?thesis unfolding st' by (simp add: sole_waiter_settle(2) [OF s])
    next
      case False
      with t' show ?thesis unfolding st' by (simp add: sole_waiter_aside(2) [OF s])
    qed
  qed
qed

lemma sole_waiter_run:
  "consistent st \<Longrightarrow> sole_waiter w r st \<Longrightarrow> run es st = Some st' \<Longrightarrow> list_all (\<lambda>e. \<not> registers r e) es
     \<Longrightarrow> sole_waiter w r st'"
proof (induction es arbitrary: st)
  case Nil
  then show ?case by simp
next
  case (Cons e es)
  from Cons.prems(3) obtain st1 where s: "step e st = Some st1" and r: "run es st1 = Some st'"
    by (auto split: option.splits)
  from Cons.prems(4) have ne: "\<not> registers r e" and rest: "list_all (\<lambda>e. \<not> registers r e) es"
    by simp_all
  have "consistent st1" by (rule consistent_step [OF Cons.prems(1) s])
  moreover have "sole_waiter w r st1" by (rule sole_waiter_step [OF Cons.prems(1) Cons.prems(2) s ne])
  ultimately show ?case using r rest by (rule Cons.IH)
qed

lemma sole_waiter_registered:
  assumes c: "consistent st" and u: "unmentioned r st"
  shows "sole_waiter (created st) r (snd (handleCaptureScreenshot_wait r t st))"
proof -
  have "calls st (created st) = []" by (rule consistentD3 [OF c]) simp
  with u show ?thesis by (auto simp: sole_waiter_def unmentioned_def)
qed

text \<open>
  Claim C1, as amended.  Let \<open>requestId\<close> be registered once: it is not registered before
  the registration that creates promise \<open>w\<close>, nor after it.  Then in every later state no
  promise has had more than one continuation invoked; \<open>w\<close> is the only promise whose timer
  holds \<open>requestId\<close>; and either the entry for \<open>requestId\<close> is \<open>w\<close> and \<open>w\<close> is unsettled,
  or the entry and the timer are gone and exactly one continuation of \<open>w\<close> has been
  invoked.  While the entry is there, a submission \<open>b\<close> for \<open>requestId\<close> is answered 200;
  the entry is deleted and the timer cleared in the state in which \<^verbatim>\<open>resolve\<close> is
  invoked; \<open>w\<close> receives, once, the image and the question of \<open>b\<close>, or, when \<open>b\<close> has no
  image, an empty image, the question, and the answer of \<open>b\<close> or the empty string; and
  from then on a submission for \<open>requestId\<close> is answered 404 and changes nothing.
\<close>

theorem one_request_per_fresh_id:
  assumes reach: "run es0 init = Some st0"
      and before: "list_all (\<lambda>e. \<not> registers requestId e) es0"
      and reg: "handleCaptureScreenshot_wait requestId t st0 = (w, st1)"
      and run: "run es st1 = Some st2"
      and after: "list_all (\<lambda>e. \<not> registers requestId e) es"
      and id: "requestId \<noteq> []"
  shows "(\<forall>w'. length (calls st2 w') \<le> 1) \<and>
         (\<forall>w' d. timers st2 w' = Some (d, requestId) \<longrightarrow> w' = w) \<and>
         (pendingScreenshots st2 requestId = Some w \<and> calls st2 w = [] \<or>
          pendingScreenshots st2 requestId = None \<and> timers st2 w = None \<and> length (calls st2 w) = 1) \<and>
         (\<forall>b. pendingScreenshots st2 requestId = Some w \<and> b_requestId b = Some requestId \<and>
              b_stepCompleted b = None \<longrightarrow>
            (\<exists>st3.
               PUT (Inr b) st2 = (\<lparr>status = 200, json = Ok_body\<rparr>, st3) \<and>
               st3 = invoke w (Resolved (if truthy (b_imageBase64 b)
                then \<lparr>imageBase64 = b_imageBase64 b, question = b_question b, legacyAnswer = None\<rparr>
                else \<lparr>imageBase64 = Some [], question = b_question b,
                      legacyAnswer = (if truthy (b_answer b) then b_answer b else Some [])\<rparr>))
                       (clearTimeout w (registry_delete requestId st2)) \<and>
               pendingScreenshots (clearTimeout w (registry_delete requestId st2)) requestId = None \<and>
               calls st3 w = [(clock st2, Resolved (if truthy (b_imageBase64 b)
                then \<lparr>imageBase64 = b_imageBase64 b, question = b_question b, legacyAnswer = None\<rparr>
                else \<lparr>imageBase64 = Some [], question = b_question b,
                      legacyAnswer = (if truthy (b_answer b) then b_answer b else Some [])\<rparr>))] \<and>
               (\<forall>es' st4. run es' st3 = Some st4 \<and> list_all (\<lambda>e. \<not> registers requestId e) es' \<longrightarrow>
                    deliver_fails requestId st4)))"
proof -
  have c0: "consistent st0" by (rule consistent_run [OF consistent_init reach])
  have "unmentioned requestId init" by (simp add: unmentioned_def init_def)
  then have u0: "unmentioned requestId st0" using reach before by (rule unmentioned_run)
  from reg have w: "w = created st0" and st1: "st1 = snd (handleCaptureScreenshot_wait requestId t st0)"
    by (auto simp: prod_eq_iff)
  have c1: "consistent st1" unfolding st1 by (rule consistent_wait [OF c0])
  have "sole_waiter w requestId st1" unfolding w st1 by (rule sole_waiter_registered [OF c0 u0])
  then have sole: "sole_waiter w requestId st2" using run after by (rule sole_waiter_run [OF c1])
  have c2: "consistent st2" by (rule consistent_run [OF c1 run])
  have first: "\<forall>w'. length (calls st2 w') \<le> 1" using consistentD4 [OF c2] by blast
  have second: "\<forall>w' d. timers st2 w' = Some (d, requestId) \<longrightarrow> w' = w"
    using sole by (simp add: sole_waiter_def)
  have third: "pendingScreenshots st2 requestId = Some w \<and> calls st2 w = [] \<or>
          pendingScreenshots st2 requestId = None \<and> timers st2 w = None \<and> length (calls st2 w) = 1"
    using sole by (auto simp: sole_waiter_def)
  have fourth: "\<exists>st3.
               PUT (Inr b) st2 = (\<lparr>status = 200, json = Ok_body\<rparr>, st3) \<and>
               st3 = invoke w (Resolved (if truthy (b_imageBase64 b)
                then \<lparr>imageBase64 = b_imageBase64 b, question = b_question b, legacyAnswer = None\<rparr>
                else \<lparr>imageBase64 = Some [], question = b_question b,
                      legacyAnswer = (if truthy (b_answer b) then b_answer b else Some [])\<rparr>))
                       (clearTimeout w (registry_delete requestId st2)) \<and>
               pendingScreenshots (clearTimeout w (registry_delete requestId st2)) requestId = None \<and>
               calls st3 w = [(clock st2, Resolved (if truthy (b_imageBase64 b)
                then \<lparr>imageBase64 = b_imageBase64 b, question = b_question b, legacyAnswer = None\<rparr>
                else \<lparr>imageBase64 = Some [], question = b_question b,
                      legacyAnswer = (if truthy (b_answer b) then b_answer b else Some [])\<rparr>))] \<and>
               (\<forall>es' st4. run es' st3 = Some st4 \<and> list_all (\<lambda>e. \<not> registers requestId e) es' \<longrightarrow>
                    deliver_fails requestId st4)"
    if h: "pendingScreenshots st2 requestId = Some w \<and> b_requestId b = Some requestId \<and>
              b_stepCompleted b = None" for b
  proof -
    define st3 where "st3 = invoke w (Resolved (submission b))
                              (clearTimeout w (registry_delete requestId st2))"
    from h third have empty: "calls st2 w = []" by auto
    have put: "PUT (Inr b) st2 = (\<lparr>status = 200, json = Ok_body\<rparr>, st3)"
      using h id by (simp add: PUT_def truthy_def st3_def)
    have eq: "st3 = invoke w (Resolved (if truthy (b_imageBase64 b)
                then \<lparr>imageBase64 = b_imageBase64 b, question = b_question b, legacyAnswer = None\<rparr>
                else \<lparr>imageBase64 = Some [], question = b_question b,
                      legacyAnswer = (if truthy (b_answer b) then b_answer b else Some [])\<rparr>))
                      (clearTimeout w (registry_delete requestId st2))"
      by (simp add: st3_def submission_def)
    have removed: "pendingScreenshots (clearTimeout w (registry_delete requestId st2)) requestId = None"
      by simp
    have once: "calls st3 w = [(clock st2, Resolved (if truthy (b_imageBase64 b)
                then \<lparr>imageBase64 = b_imageBase64 b, question = b_question b, legacyAnswer = None\<rparr>
                else \<lparr>imageBase64 = Some [], question = b_question b,
                      legacyAnswer = (if truthy (b_answer b) then b_answer b else Some [])\<rparr>))]"
      using empty by (simp add: st3_def submission_def)
    have gone: "pendingScreenshots st3 requestId = None" by (simp add: st3_def)
    have later: "deliver_fails requestId st4"
      if "run es' st3 = Some st4 \<and> list_all (\<lambda>e. \<not> registers requestId e) es'" for es' st4
      using unregistered_run [OF gone, of es' st4] that id by (simp add: PUT_unknown)
    from put eq removed once later show ?thesis by blast
  qed
  from first second third fourth show ?thesis by blast
qed

text \<open>
  The hypotheses of the amended C1 at a registration at clock 7 followed at once by a
  submission with an image: promise 0 receives that image, once, and the next submission
  is answered 404.
\<close>

theorem one_request_per_fresh_id_witness:
  "run [Tick 7] init = Some (init\<lparr>clock := 7\<rparr>) \<and>
   (\<exists>st1 st3.
      handleCaptureScreenshot_wait ''req_k3f_7'' 25000 (init\<lparr>clock := 7\<rparr>) = (0, st1) \<and>
      PUT (Inr (example_body (Some ''iVBORw=='') None)) st1 = (\<lparr>status = 200, json = Ok_body\<rparr>, st3) \<and>
      calls st3 0 = [(7, Resolved \<lparr>imageBase64 = Some ''iVBORw=='', question = None,
                                   legacyAnswer = None\<rparr>)] \<and>
      deliver_fails ''req_k3f_7'' st3)"
proof -
  let ?b = "example_body (Some ''iVBORw=='') None"
  let ?st0 = "init\<lparr>clock := 7\<rparr>"
  let ?st1 = "snd (handleCaptureScreenshot_wait ''req_k3f_7'' 25000 ?st0)"
  have r0: "run [Tick 7] init = Some ?st0" by (simp add: init_def)
  have before: "list_all (\<lambda>e. \<not> registers ''req_k3f_7'' e) [Tick 7]" by (simp add: registers_def)
  have reg: "handleCaptureScreenshot_wait ''req_k3f_7'' 25000 ?st0 = (0, ?st1)"
    by (simp add: prod_eq_iff init_def)
  have r: "run [] ?st1 = Some ?st1" by simp
  have after: "list_all (\<lambda>e. \<not> registers ''req_k3f_7'' e) []" by simp
  have id: "''req_k3f_7'' \<noteq> []" by simp
  note T = one_request_per_fresh_id [OF r0 before reg r after id]
  have h: "pendingScreenshots ?st1 ''req_k3f_7'' = Some 0 \<and> b_requestId ?b = Some ''req_k3f_7'' \<and>
           b_stepCompleted ?b = None"
    by (simp add: example_body_def init_def)
  from T [THEN conjunct2, THEN conjunct2, THEN conjunct2, THEN spec, THEN mp, OF h]
  obtain st3 where put: "PUT (Inr ?b) ?st1 = (\<lparr>status = 200, json = Ok_body\<rparr>, st3)"
    and once: "calls st3 0 = [(clock ?st1,
                 Resolved (if truthy (b_imageBase64 ?b)
                   then \<lparr>imageBase64 = b_imageBase64 ?b, question = b_question ?b, legacyAnswer = None\<rparr>
                   else \<lparr>imageBase64 = Some [], question = b_question ?b,
                         legacyAnswer = (if truthy (b_answer ?b) then b_answer ?b else Some [])\<rparr>))]"
    and later: "\<forall>es' st4. run es' st3 = Some st4 \<and> list_all (\<lambda>e. \<not> registers ''req_k3f_7'' e) es' \<longrightarrow>
                  deliver_fails ''req_k3f_7'' st4"
    by blast
  from later [THEN spec, THEN spec, of "[]" st3] have fails: "deliver_fails ''req_k3f_7'' st3"
    by simp
  from once have once': "calls st3 0 = [(7, Resolved \<lparr>imageBase64 = Some ''iVBORw=='', question = None,
                                   legacyAnswer = None\<rparr>)]"
    by (simp add: example_body_def truthy_def init_def)
  from r0 reg put once' fails show ?thesis by blast
qed

text \<open>
  Claim C1 as stated fails.  Line 92 stores the waiter without looking the id up, and the
  id repeats when \<^verbatim>\<open>Math.random\<close> and \<^verbatim>\<open>Date.now\<close> do.  Registered twice, the id
  \<^verbatim>\<open>req_k3f_0\<close> has two unsettled promises with scheduled timers at once, and each is
  rejected when its timer fires: two terminal resolutions for one id.
\<close>

theorem reused_id_resolves_twice:
  "timers (the (run [Register ''req_k3f_0'' 5, Register ''req_k3f_0'' 50] init)) 0 =
     Some (5, ''req_k3f_0'') \<and>
   timers (the (run [Register ''req_k3f_0'' 5, Register ''req_k3f_0'' 50] init)) 1 =
     Some (50, ''req_k3f_0'') \<and>
   calls (the (run [Register ''req_k3f_0'' 5, Register ''req_k3f_0'' 50,
                    Tick 5, Timer_fires 0, Tick 45, Timer_fires 1] init)) 0 =
     [(5, Rejected ''capture_screenshot timed out'')] \<and>
   calls (the (run [Register ''req_k3f_0'' 5, Register ''req_k3f_0'' 50,
                    Tick 5, Timer_fires 0, Tick 45, Timer_fires 1] init)) 1 =
     [(50, Rejected ''capture_screenshot timed out'')]"
  by (simp add: init_def timer_fires_def setTimeout_delay_def)




text \<open>
  Claim C10.  A submission for a live request id that carries neither an image nor a
  non-empty answer, and no \<^verbatim>\<open>stepCompleted\<close>, is answered 200; it deletes the entry and
  resolves the waiter with an empty image and an empty legacy answer.  The handler then
  fails with \<^verbatim>\<open>Missing imageBase64 in screenshot submission\<close> (a 500 tool failure) when
  an inference credential is configured and returns the mock answer when none is.
\<close>

theorem empty_submission_accepted:
  assumes reach: "run es init = Some st"
      and live: "pendingScreenshots st requestId = Some w"
      and id: "requestId \<noteq> []"
      and b: "b_requestId b = Some requestId" "b_stepCompleted b = None"
      and absent: "\<not> truthy (b_imageBase64 b)" "\<not> truthy (b_answer b)"
  shows "(\<exists>st'. PUT (Inr b) st = (\<lparr>status = 200, json = Ok_body\<rparr>, st') \<and>
               pendingScreenshots st' requestId = None \<and>
               calls st' w = [(clock st, Resolved \<lparr>imageBase64 = Some [], question = b_question b,
                                                    legacyAnswer = Some []\<rparr>)]) \<and>
         (\<forall>e toolCall ctx fetch. c_question ctx \<noteq> [] \<longrightarrow>
            POST_settled e (Waiting toolCall ctx w)
              (Resolved \<lparr>imageBase64 = Some [], question = b_question b, legacyAnswer = Some []\<rparr>) fetch =
            Responded (if truthy (OPENAI_API_KEY e)
                       then tool_failed toolCall ''Missing imageBase64 in screenshot submission''
                       else tool_succeeded toolCall (''Mock vision answer to: '' @ c_question ctx)))"
proof -
  have consistent: "consistent st" by (rule consistent_run [OF consistent_init reach])
  from consistentD1 [OF consistent live] obtain d where "timers st w = Some (d, requestId)" by blast
  from consistentD2 [OF consistent this] have empty: "calls st w = []" by simp
  have sub: "submission b = \<lparr>imageBase64 = Some [], question = b_question b, legacyAnswer = Some []\<rparr>"
    by (simp add: submission_def absent)
  have "PUT (Inr b) st = (\<lparr>status = 200, json = Ok_body\<rparr>,
          invoke w (Resolved (submission b)) (clearTimeout w (registry_delete requestId st)))"
    using live id b by (simp add: PUT_def truthy_def)
  then have first: "\<exists>st'. PUT (Inr b) st = (\<lparr>status = 200, json = Ok_body\<rparr>, st') \<and>
               pendingScreenshots st' requestId = None \<and>
               calls st' w = [(clock st, Resolved \<lparr>imageBase64 = Some [], question = b_question b,
                                                    legacyAnswer = Some []\<rparr>)]"
    using empty sub by simp
  have second: "POST_settled e (Waiting toolCall ctx w)
              (Resolved \<lparr>imageBase64 = Some [], question = b_question b, legacyAnswer = Some []\<rparr>) fetch =
            Responded (if truthy (OPENAI_API_KEY e)
                       then tool_failed toolCall ''Missing imageBase64 in screenshot submission''
                       else tool_succeeded toolCall (''Mock vision answer to: '' @ c_question ctx))"
    if "c_question ctx \<noteq> []" for e toolCall ctx fetch
    using that by (simp add: POST_settled_def handleCaptureScreenshot_answer_def truthy_def or_else_def)
  from first second show ?thesis by blast
qed

text \<open>
  The hypotheses of C10 after one registration, with a body that holds the request id
  only; the handler's outcome without and with an inference credential.
\<close>

theorem empty_submission_accepted_witness:
  "run [Register ''req_k3f_7'' 25000] init =
     Some (snd (handleCaptureScreenshot_wait ''req_k3f_7'' 25000 init)) \<and>
   (\<exists>st'. PUT (Inr (example_body None None)) (snd (handleCaptureScreenshot_wait ''req_k3f_7'' 25000 init)) =
            (\<lparr>status = 200, json = Ok_body\<rparr>, st') \<and>
          pendingScreenshots st' ''req_k3f_7'' = None \<and>
          calls st' 0 = [(0, Resolved \<lparr>imageBase64 = Some [], question = None, legacyAnswer = Some []\<rparr>)]) \<and>
   POST_settled example_env
     (Waiting (example_call ''capture_screenshot'' (Some ''What is this?'') None)
        \<lparr>c_question = ''What is this?'', c_requestId = ''req_k3f_7'', c_timeoutMs = 25000\<rparr> 0)
     (Resolved \<lparr>imageBase64 = Some [], question = None, legacyAnswer = Some []\<rparr>) no_fetch =
   Responded \<lparr>status = 200,
              json = Tool_success ''capture_screenshot'' ''call_1''
                       ''Mock vision answer to: What is this?''\<rparr> \<and>
   POST_settled (example_env\<lparr>OPENAI_API_KEY := Some ''sk-test''\<rparr>)
     (Waiting (example_call ''capture_screenshot'' (Some ''What is this?'') None)
        \<lparr>c_question = ''What is this?'', c_requestId = ''req_k3f_7'', c_timeoutMs = 25000\<rparr> 0)
     (Resolved \<lparr>imageBase64 = Some [], question = None, legacyAnswer = Some []\<rparr>) no_fetch =
   Responded \<lparr>status = 500,
              json = Tool_error ''Tool execution failed: Missing imageBase64 in screenshot submission''
                       ''capture_screenshot'' ''call_1''\<rparr>"
proof -
  let ?st = "snd (handleCaptureScreenshot_wait ''req_k3f_7'' 25000 init)"
  let ?b = "example_body None None"
  let ?tc = "example_call ''capture_screenshot'' (Some ''What is this?'') None"
  let ?ctx = "\<lparr>c_question = ''What is this?'', c_requestId = ''req_k3f_7'', c_timeoutMs = 25000\<rparr>"
  have r: "run [Register ''req_k3f_7'' 25000] init = Some ?st" by simp
  have live: "pendingScreenshots ?st ''req_k3f_7'' = Some 0" by (simp add: init_def)
  have hyps: "''req_k3f_7'' \<noteq> []" "b_requestId ?b = Some ''req_k3f_7''" "b_stepCompleted ?b = None"
    "\<not> truthy (b_imageBase64 ?b)" "\<not> truthy (b_answer ?b)"
    by (simp_all add: example_body_def truthy_def)
  note T = empty_submission_accepted [OF r live hyps]
  from T [THEN conjunct1]
  have a: "\<exists>st'. PUT (Inr ?b) ?st = (\<lparr>status = 200, json = Ok_body\<rparr>, st') \<and>
               pendingScreenshots st' ''req_k3f_7'' = None \<and>
               calls st' 0 = [(0, Resolved \<lparr>imageBase64 = Some [], question = None, legacyAnswer = Some []\<rparr>)]"
    by (simp add: init_def example_body_def)
  have q: "c_question ?ctx \<noteq> []" by simp
  from T [THEN conjunct2, THEN spec, THEN spec, THEN spec, THEN spec, THEN mp, OF q,
          of example_env ?tc no_fetch]
  have b: "POST_settled example_env (Waiting ?tc ?ctx 0)
             (Resolved \<lparr>imageBase64 = Some [], question = None, legacyAnswer = Some []\<rparr>) no_fetch =
           Responded \<lparr>status = 200,
                      json = Tool_success ''capture_screenshot'' ''call_1''
                               ''Mock vision answer to: What is this?''\<rparr>"
    by (simp add: example_env_def example_call_def example_body_def truthy_def tool_succeeded_def)
  from T [THEN conjunct2, THEN spec, THEN spec, THEN spec, THEN spec, THEN mp, OF q,
          of "example_env\<lparr>OPENAI_API_KEY := Some ''sk-test''\<rparr>" ?tc no_fetch]
  have c: "POST_settled (example_env\<lparr>OPENAI_API_KEY := Some ''sk-test''\<rparr>) (Waiting ?tc ?ctx 0)
             (Resolved \<lparr>imageBase64 = Some [], question = None, legacyAnswer = Some []\<rparr>) no_fetch =
           Responded \<lparr>status = 500,
                      json = Tool_error ''Tool execution failed: Missing imageBase64 in screenshot submission''
                               ''capture_screenshot'' ''call_1''\<rparr>"
    by (simp add: example_env_def example_call_def example_body_def truthy_def tool_failed_def)
  from r a b c show ?thesis by blast
qed

section \<open>The data URL pattern\<close>

lemma startsWith_split: "startsWith s p \<Longrightarrow> s = p @ drop (length p) s"
  unfolding startsWith_def by (metis append_take_drop_id)

lemma startsWith_append [simp]: "startsWith (p @ s) p"
  by (simp add: startsWith_def)

lemma match_data_url_sound:
  assumes "match_data_url s = Some (m, p)"
  shows "data_url_matches s m p"
proof -
  let ?r = "drop 5 s"
  let ?rest = "dropWhile (\<lambda>c. c \<noteq> CHR '';'') ?r"
  from assms have pre: "startsWith s ''data:''"
    and m: "m = takeWhile (\<lambda>c. c \<noteq> CHR '';'') ?r" and ne: "m \<noteq> []"
    and tag: "startsWith ?rest '';base64,''"
    and p: "p = drop 8 ?rest" and lt: "\<not> list_ex line_terminator p"
    by (auto simp: match_data_url_def Let_def split: if_splits)
  from startsWith_split [OF pre] have s: "s = ''data:'' @ ?r" by (simp add: eval_nat_numeral)
  from startsWith_split [OF tag] have rest: "?rest = '';base64,'' @ p" by (simp add: p eval_nat_numeral)
  have "?r = m @ ?rest" by (simp add: m)
  with s rest have "s = ''data:'' @ m @ '';base64,'' @ p" by metis
  moreover have "CHR '';'' \<notin> set m"
    unfolding m by (auto dest: set_takeWhileD)
  ultimately show ?thesis using ne lt by (simp add: data_url_matches_def)
qed

lemma match_data_url_complete:
  assumes "data_url_matches s m p"
  shows "match_data_url s = Some (m, p)"
proof -
  from assms have s: "s = ''data:'' @ m @ '';base64,'' @ p" and ne: "m \<noteq> []"
    and semi: "CHR '';'' \<notin> set m" and lt: "\<not> list_ex line_terminator p"
    by (simp_all add: data_url_matches_def)
  have all: "\<And>x. x \<in> set m \<Longrightarrow> x \<noteq> CHR '';''" using semi by auto
  have tw: "takeWhile (\<lambda>c. c \<noteq> CHR '';'') (m @ '';base64,'' @ p) = m"
    using all by (simp add: takeWhile_append2)
  have dw: "dropWhile (\<lambda>c. c \<noteq> CHR '';'') (m @ '';base64,'' @ p) = '';base64,'' @ p"
    using all by (simp add: dropWhile_append2)
  have d5: "drop 5 s = m @ '';base64,'' @ p" by (simp add: s)
  have pre: "startsWith s ''data:''" by (simp add: s startsWith_def)
  show ?thesis
    unfolding match_data_url_def Let_def d5 tw dw
    using pre ne lt by (simp add: startsWith_def)
qed

lemma match_data_url_iff: "match_data_url s = Some (m, p) \<longleftrightarrow> data_url_matches s m p"
  using match_data_url_sound match_data_url_complete by blast

lemma no_match: "(\<forall>m p. \<not> data_url_matches s m p) \<longleftrightarrow> match_data_url s = None"
proof
  assume "\<forall>m p. \<not> data_url_matches s m p"
  then show "match_data_url s = None"
    by (cases "match_data_url s") (auto simp: match_data_url_iff)
next
  assume "match_data_url s = None"
  then show "\<forall>m p. \<not> data_url_matches s m p"
    by (auto simp: match_data_url_iff [symmetric])
qed

section \<open>What a request does to the state\<close>

lemma capture_send_effect:
  assumes "handleCaptureScreenshot_send e toolCall message rnd st = Inr (ctx, st')"
  shows "\<exists>c. st' = st\<lparr>sent := sent st @ [c]\<rparr> \<and>
             data c = Capture_screenshot (c_question ctx) (c_requestId ctx) \<and>
             c_requestId ctx = new_requestId rnd (clock st) \<and> c_question ctx \<noteq> []"
proof (cases "httpBase e")
  case None
  with assms show ?thesis
    by (simp add: handleCaptureScreenshot_send_def Let_def split: if_splits)
next
  case (Some base)
  with assms show ?thesis
    by (auto simp: handleCaptureScreenshot_send_def Let_def truthy_def split: if_splits option.splits)
qed

lemma mark_send_effect:
  assumes "handleMarkStepComplete_send e toolCall message rnd st = Inr (s, st')"
  shows "\<exists>c. st' = st\<lparr>sent := sent st @ [c]\<rparr> \<and>
             data c = Mark_step_complete s (new_requestId rnd (clock st))"
proof (cases "httpBase e")
  case None
  with assms show ?thesis
    by (simp add: handleMarkStepComplete_send_def Let_def split: if_splits)
next
  case (Some base)
  with assms show ?thesis
    by (auto simp: handleMarkStepComplete_send_def Let_def split: if_splits)
qed

lemma POST_cases:
  "(\<exists>r. POST e req rnd st = (Responded r, st)) \<or>
   (\<exists>toolCall ctx st'. POST e req rnd st = (Sending_screenshot toolCall ctx, st') \<and>
       handleCaptureScreenshot_send e toolCall (the (projr req)) rnd st = Inr (ctx, st')) \<or>
   (\<exists>toolCall s st'. POST e req rnd st = (Sending_step toolCall s, st') \<and>
       handleMarkStepComplete_send e toolCall (the (projr req)) rnd st = Inr (s, st'))"
proof (cases req)
  case (Inl m)
  then show ?thesis by (simp add: POST_def)
next
  case (Inr mo)
  show ?thesis
  proof (cases mo)
    case None
    with Inr show ?thesis by (simp add: POST_def)
  next
    case (Some message)
    show ?thesis
    proof (cases "tool_call message")
      case None
      with Inr Some show ?thesis by (simp add: POST_def)
    next
      case tc: (Some toolCall)
      show ?thesis
      proof (cases "handleCaptureScreenshot_send e toolCall message rnd st")
        case cl: (Inl a)
        show ?thesis
        proof (cases "handleMarkStepComplete_send e toolCall message rnd st")
          case (Inl b)
          with Inr Some tc cl show ?thesis by (simp add: POST_def)
        next
          case ml: (Inr b)
          with Inr Some tc cl show ?thesis by (cases b) (simp add: POST_def)
        qed
      next
        case cr: (Inr a)
        show ?thesis
        proof (cases "handleMarkStepComplete_send e toolCall message rnd st")
          case (Inl b)
          with Inr Some tc cr show ?thesis by (cases a) (simp add: POST_def)
        next
          case ml: (Inr b)
          with Inr Some tc cr show ?thesis by (cases a, cases b) (simp add: POST_def)
        qed
      qed
    qed
  qed
qed

lemma POST_effect:
  "snd (POST e req rnd st) = st \<or> (\<exists>c. step (Send c) st = Some (snd (POST e req rnd st)))"
  using POST_cases [of e req rnd st]
  by (auto dest!: capture_send_effect mark_send_effect)

lemma POST_sent_effect:
  "snd (POST_sent ps rejected st) = st \<or>
   (\<exists>r t. step (Register r t) st = Some (snd (POST_sent ps rejected st)))"
proof (cases ps)
  case (Sending_screenshot toolCall ctx)
  show ?thesis
  proof (cases rejected)
    case None
    with Sending_screenshot
    have "step (Register (c_requestId ctx) (c_timeoutMs ctx)) st = Some (snd (POST_sent ps rejected st))"
      by (simp add: POST_sent_def split: prod.splits)
    then show ?thesis by blast
  next
    case (Some m)
    with Sending_screenshot show ?thesis by (simp add: POST_sent_def)
  qed
qed (simp_all add: POST_sent_def split: option.splits)

lemma decimal_digit: "n < 10 \<Longrightarrow> decimal n = [digit n]"
  by (simp add: decimal.simps)

lemmas example_simps =
  example_message_def example_call_def example_env_def example_body_def init_def or_else_def
  truthy_def httpBase_def replace_scheme_def startsWith_def new_requestId_def decimal_digit
  digit_def Let_def

text \<open>
  Claim C3, as amended.  When a \<^verbatim>\<open>capture_screenshot\<close> invocation reaches the call of
  \<^verbatim>\<open>sendData\<close>, the command carrying the generated request id has been handed to the
  transport and the registry, the timers and the promises are as before.  The waiter is
  stored under that id, with its timer, by the section that runs once the send has
  completed; when the send is rejected the invocation fails and nothing is stored.
\<close>

theorem send_precedes_registration:
  assumes "POST e (Inr (Some message)) rnd st = (Sending_screenshot toolCall ctx, st')"
  shows "(\<exists>c. sent st' = sent st @ [c] \<and>
              data c = Capture_screenshot (c_question ctx) (c_requestId ctx)) \<and>
         c_requestId ctx = new_requestId rnd (clock st) \<and>
         pendingScreenshots st' = pendingScreenshots st \<and> timers st' = timers st \<and>
         calls st' = calls st \<and> created st' = created st \<and>
         (\<forall>st2. \<exists>w st3.
            POST_sent (Sending_screenshot toolCall ctx) None st2 = (Waiting toolCall ctx w, st3) \<and>
            pendingScreenshots st3 (c_requestId ctx) = Some w \<and>
            timers st3 w = Some (clock st2 + setTimeout_delay (c_timeoutMs ctx), c_requestId ctx) \<and>
            sent st3 = sent st2) \<and>
         (\<forall>m st2. POST_sent (Sending_screenshot toolCall ctx) (Some m) st2 =
                    (Responded (tool_failed toolCall m), st2))"
proof -
  from POST_cases [of e "Inr (Some message)" rnd st] assms
  have "handleCaptureScreenshot_send e toolCall message rnd st = Inr (ctx, st')"
    by auto
  from capture_send_effect [OF this] obtain c where
    st': "st' = st\<lparr>sent := sent st @ [c]\<rparr>"
    and c: "data c = Capture_screenshot (c_question ctx) (c_requestId ctx)"
    and rid: "c_requestId ctx = new_requestId rnd (clock st)"
    by blast
  have later: "\<exists>w st3.
            POST_sent (Sending_screenshot toolCall ctx) None st2 = (Waiting toolCall ctx w, st3) \<and>
            pendingScreenshots st3 (c_requestId ctx) = Some w \<and>
            timers st3 w = Some (clock st2 + setTimeout_delay (c_timeoutMs ctx), c_requestId ctx) \<and>
            sent st3 = sent st2" for st2
    by (rule exI [of _ "created st2"],
        rule exI [of _ "snd (handleCaptureScreenshot_wait (c_requestId ctx) (c_timeoutMs ctx) st2)"])
       (simp add: POST_sent_def case_prod_beta)
  have failed: "POST_sent (Sending_screenshot toolCall ctx) (Some m) st2 =
                    (Responded (tool_failed toolCall m), st2)" for m st2
    by (simp add: POST_sent_def)
  from c rid later failed show ?thesis unfolding st' by auto
qed

text \<open>
  The hypothesis of the amended C3 at the sample invocation.
\<close>

theorem send_precedes_registration_witness:
  "(\<exists>c. sent (snd (POST example_env (Inr (Some (example_message (example_call ''capture_screenshot'' (Some ''What is this?'') None)))) ''k3f'' init)) = sent init @ [c] \<and>
        data c = Capture_screenshot ''What is this?'' ''req_k3f_0'') \<and>
   pendingScreenshots (snd (POST example_env (Inr (Some (example_message (example_call ''capture_screenshot'' (Some ''What is this?'') None)))) ''k3f'' init)) = pendingScreenshots init"
proof -
  let ?tc = "example_call ''capture_screenshot'' (Some ''What is this?'') None"
  let ?ctx = "\<lparr>c_question = ''What is this?'', c_requestId = ''req_k3f_0'', c_timeoutMs = 25000\<rparr>"
  let ?P = "POST example_env (Inr (Some (example_message ?tc))) ''k3f'' init"
  have "fst ?P = Sending_screenshot ?tc ?ctx"
    by (simp add: POST_def handleCaptureScreenshot_send_def example_simps)
  then have "?P = (Sending_screenshot ?tc ?ctx, snd ?P)"
    by (simp add: prod_eq_iff)
  note sent_first = send_precedes_registration [OF this]
  from sent_first [THEN conjunct1]
  have a: "\<exists>c. sent (snd ?P) = sent init @ [c] \<and>
               data c = Capture_screenshot ''What is this?'' ''req_k3f_0''"
    by simp
  from sent_first [THEN conjunct2, THEN conjunct2, THEN conjunct1]
  have b: "pendingScreenshots (snd ?P) = pendingScreenshots init" .
  from a b show ?thesis by (rule conjI)
qed

text \<open>
  Claim C3 as stated fails.  After the first section of the sample invocation the
  command with id \<^verbatim>\<open>req_k3f_0\<close> is with the transport while the registry has no entry
  for that id, and a submission for it at that moment is answered 404.
\<close>

theorem registration_follows_send:
  "fst (POST example_env (Inr (Some (example_message (example_call ''capture_screenshot'' (Some ''What is this?'') None)))) ''k3f'' init) =
     Sending_screenshot (example_call ''capture_screenshot'' (Some ''What is this?'') None)
       \<lparr>c_question = ''What is this?'', c_requestId = ''req_k3f_0'', c_timeoutMs = 25000\<rparr> \<and>
   sent (snd (POST example_env (Inr (Some (example_message (example_call ''capture_screenshot'' (Some ''What is this?'') None)))) ''k3f'' init)) =
     [\<lparr>host = ''https://rooms.example'', room = ''room-1'',
       data = Capture_screenshot ''What is this?'' ''req_k3f_0'',
       destinationIdentities = [''user-1'']\<rparr>] \<and>
   pendingScreenshots (snd (POST example_env (Inr (Some (example_message (example_call ''capture_screenshot'' (Some ''What is this?'') None)))) ''k3f'' init)) ''req_k3f_0'' = None \<and>
   fst (PUT (Inr \<lparr>b_requestId = Some ''req_k3f_0'', b_imageBase64 = Some ''iVBORw=='',
                  b_question = Some ''What is this?'', b_answer = None,
                  b_stepCompleted = None, b_success = None\<rparr>)
          (snd (POST example_env (Inr (Some (example_message (example_call ''capture_screenshot'' (Some ''What is this?'') None)))) ''k3f'' init))) =
     \<lparr>status = 404, json = Error_body ''No pending request''\<rparr>"
  by (simp add: POST_def handleCaptureScreenshot_send_def PUT_def example_simps)

text \<open>
  Claim C4, as amended.  A tool invocation whose room name or target identity is still
  missing or empty after the fallback to the call context, or whose question (for the
  screenshot tool) is missing or empty, or whose step id (for the step tool) is missing,
  is answered with status 500 and the handler's message behind \<^verbatim>\<open>Tool execution failed: \<close>;
  the state is unchanged, so nothing is sent and nothing registered.
\<close>

theorem missing_field_fails_tool:
  assumes "m_type message = ''tool-call-attempt''"
      and "tool_call message = Some toolCall"
  shows "((tc_name toolCall = ''capture_screenshot'' \<or> tc_name toolCall = ''captureScreenshot'') \<and>
          (\<not> truthy (or_else (p_roomName (parameters toolCall)) (call_id message)) \<or>
           \<not> truthy (p_question (parameters toolCall)) \<or>
           \<not> truthy (or_else (p_targetIdentity (parameters toolCall)) (call_user_id message))) \<longrightarrow>
          POST e (Inr (Some message)) rnd st =
            (Responded \<lparr>status = 500,
                        json = Tool_error
                          ''Tool execution failed: roomName, question, and targetIdentity are required for capture_screenshot''
                          (tc_name toolCall) (tc_id toolCall)\<rparr>, st)) \<and>
         (tc_name toolCall = ''markStepComplete'' \<and>
          (\<not> truthy (or_else (p_roomName (parameters toolCall)) (call_id message)) \<or>
           \<not> truthy (or_else (p_targetIdentity (parameters toolCall)) (call_user_id message)) \<or>
           p_stepId (parameters toolCall) = None) \<longrightarrow>
          POST e (Inr (Some message)) rnd st =
            (Responded \<lparr>status = 500,
                        json = Tool_error
                          ''Tool execution failed: roomName, targetIdentity, and stepId are required for markStepComplete''
                          (tc_name toolCall) (tc_id toolCall)\<rparr>, st))"
proof (intro conjI impI)
  assume "(tc_name toolCall = ''capture_screenshot'' \<or> tc_name toolCall = ''captureScreenshot'') \<and>
          (\<not> truthy (or_else (p_roomName (parameters toolCall)) (call_id message)) \<or>
           \<not> truthy (p_question (parameters toolCall)) \<or>
           \<not> truthy (or_else (p_targetIdentity (parameters toolCall)) (call_user_id message)))"
  then have n: "tc_name toolCall = ''capture_screenshot'' \<or> tc_name toolCall = ''captureScreenshot''"
    and "handleCaptureScreenshot_send e toolCall message rnd st =
           Inl ''roomName, question, and targetIdentity are required for capture_screenshot''"
    by (auto simp: handleCaptureScreenshot_send_def Let_def)
  with assms show "POST e (Inr (Some message)) rnd st =
            (Responded \<lparr>status = 500,
                        json = Tool_error
                          ''Tool execution failed: roomName, question, and targetIdentity are required for capture_screenshot''
                          (tc_name toolCall) (tc_id toolCall)\<rparr>, st)"
    by (auto simp: POST_def tool_failed_def)
next
  assume "tc_name toolCall = ''markStepComplete'' \<and>
          (\<not> truthy (or_else (p_roomName (parameters toolCall)) (call_id message)) \<or>
           \<not> truthy (or_else (p_targetIdentity (parameters toolCall)) (call_user_id message)) \<or>
           p_stepId (parameters toolCall) = None)"
  then have n: "tc_name toolCall = ''markStepComplete''"
    and "handleMarkStepComplete_send e toolCall message rnd st =
           Inl ''roomName, targetIdentity, and stepId are required for markStepComplete''"
    by (auto simp: handleMarkStepComplete_send_def Let_def)
  with assms show "POST e (Inr (Some message)) rnd st =
            (Responded \<lparr>status = 500,
                        json = Tool_error
                          ''Tool execution failed: roomName, targetIdentity, and stepId are required for markStepComplete''
                          (tc_name toolCall) (tc_id toolCall)\<rparr>, st)"
    by (simp add: POST_def tool_failed_def)
qed

text \<open>
  The amended C4 at a screenshot call without a question and a step call without a step
  id.
\<close>

theorem missing_field_fails_tool_witness:
  "POST example_env (Inr (Some (example_message (example_call ''captureScreenshot'' None None)))) ''k3f'' init =
     (Responded \<lparr>status = 500,
                 json = Tool_error
                   ''Tool execution failed: roomName, question, and targetIdentity are required for capture_screenshot''
                   ''captureScreenshot'' ''call_1''\<rparr>, init) \<and>
   POST example_env (Inr (Some (example_message (example_call ''markStepComplete'' None None)))) ''k3f'' init =
     (Responded \<lparr>status = 500,
                 json = Tool_error
                   ''Tool execution failed: roomName, targetIdentity, and stepId are required for markStepComplete''
                   ''markStepComplete'' ''call_1''\<rparr>, init)"
  using missing_field_fails_tool [of "example_message (example_call ''captureScreenshot'' None None)"
          "example_call ''captureScreenshot'' None None" example_env "''k3f''" init]
        missing_field_fails_tool [of "example_message (example_call ''markStepComplete'' None None)"
          "example_call ''markStepComplete'' None None" example_env "''k3f''" init]
  by (simp add: example_message_def example_call_def truthy_def)

text \<open>
  Claim C4 as stated fails: a screenshot call without a question is answered 500, not
  400.
\<close>

theorem missing_question_is_500:
  "fst (POST example_env
         (Inr (Some (example_message (example_call ''capture_screenshot'' None None)))) ''k3f'' init) =
     Responded \<lparr>status = 500,
                json = Tool_error
                  ''Tool execution failed: roomName, question, and targetIdentity are required for capture_screenshot''
                  ''capture_screenshot'' ''call_1''\<rparr>"
  by (simp add: POST_def handleCaptureScreenshot_send_def tool_failed_def example_simps)

text \<open>
  Claim C5, as amended.  For a delivered image that begins with \<^verbatim>\<open>data:\<close> and is not
  in the language of the pattern: with an inference credential the handler fails with
  \<^verbatim>\<open>Unsupported data URL format\<close>, whatever the inference endpoint would answer; with
  no credential the mock return of line 106 comes first and the image is not looked at.
\<close>

theorem malformed_data_url:
  assumes "imageBase64 d = Some s"
      and "startsWith s ''data:''"
      and "\<forall>m p. \<not> data_url_matches s m p"
  shows "(truthy (OPENAI_API_KEY e) \<longrightarrow>
            handleCaptureScreenshot_answer e q d fetch = Inl ''Unsupported data URL format'') \<and>
         (\<not> truthy (OPENAI_API_KEY e) \<and> q \<noteq> [] \<longrightarrow>
            handleCaptureScreenshot_answer e q d fetch = Inr (''Mock vision answer to: '' @ q))"
proof -
  from assms(2) have "s \<noteq> []" by (auto simp: startsWith_def)
  with assms(1) have img: "truthy (imageBase64 d)" by (simp add: truthy_def)
  from assms(3) have "match_data_url s = None" by (simp add: no_match)
  with assms(2) have "parse_image s = Inl ''Unsupported data URL format''"
    by (simp add: parse_image_def)
  with img assms(1) show ?thesis
    by (simp add: handleCaptureScreenshot_answer_def Let_def or_else_def truthy_def)
qed

text \<open>
  The hypotheses of the amended C5 at \<^verbatim>\<open>data:image/png\<close>, with a credential.
\<close>

theorem malformed_data_url_witness:
  "handleCaptureScreenshot_answer (example_env\<lparr>OPENAI_API_KEY := Some ''sk-test''\<rparr>) ''What is this?''
     (submission (example_body (Some ''data:image/png'') None)) no_fetch =
   Inl ''Unsupported data URL format''"
proof -
  let ?d = "submission (example_body (Some ''data:image/png'') None)"
  have a: "imageBase64 ?d = Some ''data:image/png''"
    by (simp add: submission_def example_body_def truthy_def)
  have b: "startsWith ''data:image/png'' ''data:''" by (simp add: startsWith_def)
  have "match_data_url ''data:image/png'' = None"
    by (simp add: match_data_url_def startsWith_def)
  then have c: "\<forall>m p. \<not> data_url_matches ''data:image/png'' m p" by (simp add: no_match)
  from malformed_data_url [OF a b c, of "example_env\<lparr>OPENAI_API_KEY := Some ''sk-test''\<rparr>"
         "''What is this?''" no_fetch]
  show ?thesis by (simp add: truthy_def example_env_def)
qed

text \<open>
  Claim C5 as stated fails: with no credential the same malformed data URL yields the
  mock answer, not an error.
\<close>

theorem mock_precedes_normalization:
  "handleCaptureScreenshot_answer example_env ''What is this?''
     (submission (example_body (Some ''data:image/png'') None)) no_fetch =
   Inr ''Mock vision answer to: What is this?''"
  by (simp add: handleCaptureScreenshot_answer_def submission_def example_simps)

text \<open>
  Claim C6, as amended.  With no inference credential and a non-empty question \<open>q\<close>: for
  a delivered result that is not a legacy answer (it has an image, or its legacy answer
  is empty) the handler returns \<^verbatim>\<open>Mock vision answer to: \<close> followed by \<open>q\<close>; for a
  delivered legacy answer (no image, a non-empty answer) it returns that answer verbatim.
  In both cases the invocation is answered 200 with that result.
\<close>

theorem mock_answer_without_credential:
  assumes "\<not> truthy (OPENAI_API_KEY e)"
      and "q \<noteq> []"
  shows "(truthy (imageBase64 d) \<or> \<not> truthy (legacyAnswer d) \<longrightarrow>
            handleCaptureScreenshot_answer e q d fetch = Inr (''Mock vision answer to: '' @ q) \<and>
            (\<forall>toolCall ctx w. c_question ctx = q \<longrightarrow>
               POST_settled e (Waiting toolCall ctx w) (Resolved d) fetch =
                 Responded \<lparr>status = 200,
                            json = Tool_success (tc_name toolCall) (tc_id toolCall)
                                     (''Mock vision answer to: '' @ q)\<rparr>)) \<and>
         (\<forall>a. \<not> truthy (imageBase64 d) \<and> legacyAnswer d = Some a \<and> a \<noteq> [] \<longrightarrow>
            handleCaptureScreenshot_answer e q d fetch = Inr a \<and>
            (\<forall>toolCall ctx w. c_question ctx = q \<longrightarrow>
               POST_settled e (Waiting toolCall ctx w) (Resolved d) fetch =
                 Responded \<lparr>status = 200,
                            json = Tool_success (tc_name toolCall) (tc_id toolCall) a\<rparr>))"
proof (intro conjI allI impI)
  assume h: "truthy (imageBase64 d) \<or> \<not> truthy (legacyAnswer d)"
  show m: "handleCaptureScreenshot_answer e q d fetch = Inr (''Mock vision answer to: '' @ q)"
    using assms h by (auto simp: handleCaptureScreenshot_answer_def Let_def or_else_def truthy_def)
  show "POST_settled e (Waiting toolCall ctx w) (Resolved d) fetch =
          Responded \<lparr>status = 200,
                     json = Tool_success (tc_name toolCall) (tc_id toolCall)
                              (''Mock vision answer to: '' @ q)\<rparr>"
    if "c_question ctx = q" for toolCall ctx w
    using m that by (simp add: POST_settled_def tool_succeeded_def)
next
  fix a
  assume h: "\<not> truthy (imageBase64 d) \<and> legacyAnswer d = Some a \<and> a \<noteq> []"
  show l: "handleCaptureScreenshot_answer e q d fetch = Inr a"
    using h by (simp add: handleCaptureScreenshot_answer_def Let_def truthy_def)
  show "POST_settled e (Waiting toolCall ctx w) (Resolved d) fetch =
          Responded \<lparr>status = 200, json = Tool_success (tc_name toolCall) (tc_id toolCall) a\<rparr>"
    if "c_question ctx = q" for toolCall ctx w
    using l that by (simp add: POST_settled_def tool_succeeded_def)
qed

text \<open>
  The hypotheses of the amended C6 at the question \<^verbatim>\<open>What is this?\<close>, once with a
  delivered image and once with a delivered legacy answer.
\<close>

theorem mock_answer_without_credential_witness:
  "handleCaptureScreenshot_answer example_env ''What is this?''
     (submission (example_body (Some ''iVBORw=='') None)) no_fetch =
   Inr ''Mock vision answer to: What is this?'' \<and>
   handleCaptureScreenshot_answer example_env ''What is this?''
     (submission (example_body None (Some ''Two wires''))) no_fetch =
   Inr ''Two wires''"
proof -
  have e: "\<not> truthy (OPENAI_API_KEY example_env)" by (simp add: example_env_def truthy_def)
  have q: "''What is this?'' \<noteq> []" by simp
  let ?d1 = "submission (example_body (Some ''iVBORw=='') None)"
  let ?d2 = "submission (example_body None (Some ''Two wires''))"
  have h1: "truthy (imageBase64 ?d1) \<or> \<not> truthy (legacyAnswer ?d1)"
    by (simp add: submission_def example_body_def truthy_def)
  have h2: "\<not> truthy (imageBase64 ?d2) \<and> legacyAnswer ?d2 = Some ''Two wires'' \<and> ''Two wires'' \<noteq> []"
    by (simp add: submission_def example_body_def truthy_def)
  from mock_answer_without_credential [OF e q, of ?d1 no_fetch, THEN conjunct1, THEN mp, OF h1]
  have a: "handleCaptureScreenshot_answer example_env ''What is this?'' ?d1 no_fetch =
             Inr ''Mock vision answer to: What is this?''"
    by simp
  from mock_answer_without_credential [OF e q, of ?d2 no_fetch, THEN conjunct2, THEN spec, THEN mp, OF h2]
  have b: "handleCaptureScreenshot_answer example_env ''What is this?'' ?d2 no_fetch = Inr ''Two wires''"
    by simp
  from a b show ?thesis by (rule conjI)
qed

text \<open>
  Claim C6 as stated fails: with no credential and the same question, a delivered legacy
  answer is returned verbatim (lines 100 to 102 come before the mock).
\<close>

theorem legacy_answer_wins:
  "handleCaptureScreenshot_answer example_env ''What is this?''
     (submission (example_body None (Some ''A red wire''))) no_fetch = Inr ''A red wire''"
  by (simp add: handleCaptureScreenshot_answer_def submission_def example_simps)

text \<open>
  Claim C8.  A \<^verbatim>\<open>markStepComplete\<close> invocation with step id \<open>s\<close>, a room and a target
  identity (given or derived), on a server with the room service configured, calls
  \<^verbatim>\<open>sendData\<close> exactly once, with the command \<^verbatim>\<open>mark_step_complete\<close> for \<open>s\<close> and a
  generated request id, addressed to the one target identity; registry, timers and
  promises are untouched; and when the send completes the invocation is answered at once
  with \<^verbatim>\<open>Step s marked complete\<close>, \<open>s\<close> printed as line 222 prints it.
\<close>

theorem mark_step_fire_and_confirm:
  assumes "m_type message = ''tool-call-attempt''"
      and "tool_call message = Some toolCall"
      and "tc_name toolCall = ''markStepComplete''"
      and "p_stepId (parameters toolCall) = Some s"
      and "or_else (p_roomName (parameters toolCall)) (call_id message) = Some roomName"
      and "roomName \<noteq> []"
      and "or_else (p_targetIdentity (parameters toolCall)) (call_user_id message) = Some targetIdentity"
      and "targetIdentity \<noteq> []"
      and "httpBase e = Some base"
  shows "\<exists>st'. POST e (Inr (Some message)) rnd st = (Sending_step toolCall s, st') \<and>
           sent st' = sent st @
             [\<lparr>host = base, room = roomName,
               data = Mark_step_complete s (new_requestId rnd (clock st)),
               destinationIdentities = [targetIdentity]\<rparr>] \<and>
           pendingScreenshots st' = pendingScreenshots st \<and>
           timers st' = timers st \<and> created st' = created st \<and>
           POST_sent (Sending_step toolCall s) None st' =
             (Responded \<lparr>status = 200,
                         json = Tool_success ''markStepComplete'' (tc_id toolCall)
                                  (''Step '' @ show_number s @ '' marked complete'')\<rparr>, st')"
  using assms
  by (simp add: POST_def handleMarkStepComplete_send_def POST_sent_def tool_succeeded_def
        handleMarkStepComplete_return_def truthy_def)

text \<open>The hypotheses of C8 at step id 2.\<close>

theorem mark_step_fire_and_confirm_witness:
  "\<exists>st'. POST example_env
            (Inr (Some (example_message (example_call ''markStepComplete'' None (Some (Abs_safe_integer 2))))))
            ''k3f'' init =
          (Sending_step (example_call ''markStepComplete'' None (Some (Abs_safe_integer 2)))
             (Abs_safe_integer 2), st') \<and>
         sent st' = sent init @
           [\<lparr>host = ''https://rooms.example'', room = ''room-1'',
             data = Mark_step_complete (Abs_safe_integer 2) ''req_k3f_0'',
             destinationIdentities = [''user-1'']\<rparr>] \<and>
         pendingScreenshots st' = pendingScreenshots init \<and>
         timers st' = timers init \<and> created st' = created init \<and>
         POST_sent (Sending_step (example_call ''markStepComplete'' None (Some (Abs_safe_integer 2)))
                      (Abs_safe_integer 2)) None st' =
           (Responded \<lparr>status = 200,
                       json = Tool_success ''markStepComplete'' ''call_1'' ''Step 2 marked complete''\<rparr>, st')"
proof -
  let ?two = "Abs_safe_integer 2"
  let ?tc = "example_call ''markStepComplete'' None (Some ?two)"
  have rep: "Rep_safe_integer ?two = 2" by (simp add: Abs_safe_integer_inverse)
  have "\<exists>st'. POST example_env (Inr (Some (example_message ?tc))) ''k3f'' init = (Sending_step ?tc ?two, st') \<and>
           sent st' = sent init @
             [\<lparr>host = ''https://rooms.example'', room = ''room-1'',
               data = Mark_step_complete ?two (new_requestId ''k3f'' (clock init)),
               destinationIdentities = [''user-1'']\<rparr>] \<and>
           pendingScreenshots st' = pendingScreenshots init \<and>
           timers st' = timers init \<and> created st' = created init \<and>
           POST_sent (Sending_step ?tc ?two) None st' =
             (Responded \<lparr>status = 200,
                         json = Tool_success ''markStepComplete'' (tc_id ?tc)
                                  (''Step '' @ show_number ?two @ '' marked complete'')\<rparr>, st')"
    by (rule mark_step_fire_and_confirm) (simp_all add: example_simps)
  moreover have "new_requestId ''k3f'' (clock init) = ''req_k3f_0''" by (simp add: example_simps)
  moreover have "''Step '' @ show_number ?two @ '' marked complete'' = ''Step 2 marked complete''"
    by (simp add: show_number_def rep decimal_digit digit_def)
  moreover have "tc_id ?tc = ''call_1''" by (simp add: example_call_def)
  ultimately show ?thesis by simp
qed

text \<open>
  Claim C9.  A tool invocation whose tool name is none of \<^verbatim>\<open>capture_screenshot\<close>,
  \<^verbatim>\<open>captureScreenshot\<close> and \<^verbatim>\<open>markStepComplete\<close> is answered 400 with
  \<^verbatim>\<open>Unknown tool: \<close> and the name; the state, and with it the list of commands sent,
  is unchanged.
\<close>

theorem unknown_tool_rejected:
  assumes "m_type message = ''tool-call-attempt''"
      and "tool_call message = Some toolCall"
      and "tc_name toolCall \<noteq> ''capture_screenshot''"
      and "tc_name toolCall \<noteq> ''captureScreenshot''"
      and "tc_name toolCall \<noteq> ''markStepComplete''"
  shows "POST e (Inr (Some message)) rnd st =
           (Responded \<lparr>status = 400, json = Error_body (''Unknown tool: '' @ tc_name toolCall)\<rparr>, st)"
  using assms by (simp add: POST_def)

text \<open>
  The hypotheses of C9 at the tool name \<^verbatim>\<open>doSomethingElse\<close>.
\<close>

theorem unknown_tool_rejected_witness:
  "POST example_env (Inr (Some (example_message (example_call ''doSomethingElse'' None None)))) ''k3f'' init =
     (Responded \<lparr>status = 400, json = Error_body ''Unknown tool: doSomethingElse''\<rparr>, init) \<and>
   sent init = []"
  using unknown_tool_rejected [of "example_message (example_call ''doSomethingElse'' None None)"
          "example_call ''doSomethingElse'' None None" example_env "''k3f''" init]
  by (simp add: example_message_def example_call_def init_def)

end
